theory Spec2Isabelle
  imports Main "HOL-Library.Sublist" "HOL-Library.AList" "HOL-Library.Word"
begin

section \<open>The file tree behind the os and ioutil calls\<close>

text \<open>
  \<^verbatim>\<open>config.go\<close> touches the disk through \<^verbatim>\<open>os.MkdirAll\<close>, \<^verbatim>\<open>os.Remove\<close>,
  \<^verbatim>\<open>os.RemoveAll\<close>, \<^verbatim>\<open>ioutil.ReadFile\<close> and \<^verbatim>\<open>ioutil.WriteFile\<close>. The disk is an
  association list from paths to nodes. A path is absolute and in the normal form of
  \<^verbatim>\<open>filepath.Clean\<close>, written as the list of its components; the empty list is the root,
  which always exists as a directory. The separator is the slash. Permissions (0700,
  0600) are not part of the model, so the only failures are those the shape of the tree
  causes.
\<close>

type_synonym bytes = "8 word list"

type_synonym path = "string list"

datatype node = Regular bytes | Directory

type_synonym fs = "(path \<times> node) list"

datatype errno = ENOENT | ENOTDIR | EISDIR | EEXIST

text \<open>
  \<^verbatim>\<open>filepath.Join(dir, name)\<close> for a directory in normal form: the name is split at the
  separator, and \<^verbatim>\<open>Clean\<close> drops the empty and the \<^verbatim>\<open>.\<close> elements and lets each
  \<^verbatim>\<open>..\<close> take back the element before it (at the root there is none to take back).
  A name that is a single component is appended as it is.
\<close>

fun split_sep :: "string \<Rightarrow> string list" where
  "split_sep [] = [[]]"
| "split_sep (c # cs) =
     (if c = CHR ''/'' then [] # split_sep cs
      else case split_sep cs of [] \<Rightarrow> [[c]] | x # xs \<Rightarrow> (c # x) # xs)"

definition clean_step :: "path \<Rightarrow> string \<Rightarrow> path" where
  "clean_step p c =
     (if c = [] \<or> c = ''.'' then p else if c = ''..'' then butlast p else p @ [c])"

definition Join :: "path \<Rightarrow> string \<Rightarrow> path" where
  "Join dir name = foldl clean_step dir (split_sep name)"

definition single_component :: "string \<Rightarrow> bool" where
  "single_component name =
     (name \<noteq> [] \<and> name \<noteq> ''.'' \<and> name \<noteq> ''..'' \<and> CHR ''/'' \<notin> set name)"

definition HasSuffix :: "string \<Rightarrow> string \<Rightarrow> bool" where
  "HasSuffix s suf = suffix suf s"

definition Stat :: "fs \<Rightarrow> path \<Rightarrow> node option" where
  "Stat disk p = (if p = [] then Some Directory else map_of disk p)"

definition IsNotExist :: "errno \<Rightarrow> bool" where
  "IsNotExist e = (e = ENOENT)"

definition has_children :: "fs \<Rightarrow> path \<Rightarrow> bool" where
  "has_children disk p = list_ex (\<lambda>(q, n). strict_prefix p q) disk"

text \<open>
  The error of a system call on a name that does not exist: the kernel walks the path and
  stops at the first component that is missing (\<open>ENOENT\<close>) or is a regular file
  (\<open>ENOTDIR\<close>). Read from the end of the path, that is the nearest ancestor that exists.
\<close>

function missing_errno :: "fs \<Rightarrow> path \<Rightarrow> errno" where
  "missing_errno disk p =
     (case Stat disk (butlast p) of
        Some Directory \<Rightarrow> ENOENT
      | Some (Regular d) \<Rightarrow> ENOTDIR
      | None \<Rightarrow> missing_errno disk (butlast p))"
  by pat_completeness auto
termination
  by (relation "measure (\<lambda>(disk, p). length p)")
     (auto simp: Stat_def split: if_splits intro!: diff_less simp: butlast_conv_take)

declare missing_errno.simps [simp del]

text \<open>\<^verbatim>\<open>os.Mkdir\<close>: the parent must be a directory and the name must be free.\<close>

definition Mkdir :: "fs \<Rightarrow> path \<Rightarrow> errno + fs" where
  "Mkdir disk p =
     (case Stat disk p of
        Some n \<Rightarrow> Inl EEXIST
      | None \<Rightarrow>
         (case Stat disk (butlast p) of
            Some Directory \<Rightarrow> Inr (disk @ [(p, Directory)])
          | _ \<Rightarrow> Inl (missing_errno disk p)))"

text \<open>
  \<^verbatim>\<open>os.MkdirAll\<close>: succeed at once on a directory, fail on a regular file, otherwise
  make the parent and then the directory itself.
\<close>

function MkdirAll :: "fs \<Rightarrow> path \<Rightarrow> errno + fs" where
  "MkdirAll disk p =
     (case Stat disk p of
        Some Directory \<Rightarrow> Inr disk
      | Some (Regular d) \<Rightarrow> Inl ENOTDIR
      | None \<Rightarrow>
         (case MkdirAll disk (butlast p) of
            Inl e \<Rightarrow> Inl e
          | Inr disk' \<Rightarrow> Mkdir disk' p))"
  by pat_completeness auto
termination
  by (relation "measure (\<lambda>(disk, p). length p)") (auto simp: Stat_def split: if_splits)

declare MkdirAll.simps [simp del]

text \<open>
  \<^verbatim>\<open>os.Remove\<close> deletes a regular file or an empty directory, \<^verbatim>\<open>os.RemoveAll\<close> a whole
  subtree. Every call site discards their error (\<^verbatim>\<open>_ = os.Remove(...)\<close>), so both return
  the disk they leave behind, unchanged where the call fails.
\<close>

definition Remove :: "fs \<Rightarrow> path \<Rightarrow> fs" where
  "Remove disk p =
     (if p = [] then disk
      else case map_of disk p of
        None \<Rightarrow> disk
      | Some (Regular d) \<Rightarrow> AList.delete p disk
      | Some Directory \<Rightarrow> if has_children disk p then disk else AList.delete p disk)"

definition RemoveAll :: "fs \<Rightarrow> path \<Rightarrow> fs" where
  "RemoveAll disk p = filter (\<lambda>(q, n). \<not> prefix p q) disk"

definition ReadFile :: "fs \<Rightarrow> path \<Rightarrow> errno + bytes" where
  "ReadFile disk p =
     (case Stat disk p of
        Some (Regular d) \<Rightarrow> Inr d
      | Some Directory \<Rightarrow> Inl EISDIR
      | None \<Rightarrow> Inl (missing_errno disk p))"

definition WriteFile :: "fs \<Rightarrow> path \<Rightarrow> bytes \<Rightarrow> errno + fs" where
  "WriteFile disk p data =
     (case Stat disk p of
        Some Directory \<Rightarrow> Inl EISDIR
      | Some (Regular d) \<Rightarrow> Inr (AList.update p (Regular data) disk)
      | None \<Rightarrow>
         (case Stat disk (butlast p) of
            Some Directory \<Rightarrow> Inr (disk @ [(p, Regular data)])
          | _ \<Rightarrow> Inl (missing_errno disk p)))"


section \<open>The sections and the configuration aggregate\<close>

record AuthCache =
  NextBatch :: string
  FilterID :: string
  InitialSyncDone :: bool

record UserPreferences =
  HideUserList :: bool
  HideRoomList :: bool
  BareMessageView :: bool
  DisableImages :: bool
  DisableTypingNotifs :: bool
  DisableEmojis :: bool
  DisableMarkdown :: bool
  DisableHTML :: bool
  DisableDownloads :: bool
  DisableNotifications :: bool
  DisableShowURLs :: bool

record KeyMap =
  VerificationDone :: string
  VerificationSubmit :: string
  FuzzySearchOpen :: string
  FuzzySearchClose :: string
  FuzzySearchNext :: string
  FuzzySearchPrev :: string
  FuzzySearchChoose :: string
  RoomNext :: string
  RoomPrev :: string
  RoomViewTop :: string
  RoomViewBottom :: string
  RoomViewScrollUp :: string
  RoomViewScrollDown :: string
  MessageSelectCancel :: string
  MessageSelectNext :: string
  MessageSelectPrev :: string
  MessageSelectChoose :: string
  MessageInputNewline :: string
  MessageInputClear :: string
  MessageInputSend :: string
  BareViewOpen :: string

text \<open>
  The struct \<^verbatim>\<open>Config\<close>. \<open>'rc\<close> is the room cache (\<^verbatim>\<open>*rooms.RoomCache\<close>) and \<open>'pr\<close>
  the push ruleset (\<^verbatim>\<open>*pushrules.PushRuleset\<close>), both of packages outside this file and
  both nil-able pointers. \<^verbatim>\<open>RoomCacheSize\<close> is a Go \<^verbatim>\<open>int\<close> and \<^verbatim>\<open>RoomCacheAge\<close> an
  \<^verbatim>\<open>int64\<close>; no arithmetic is done on either.
\<close>

record ('rc, 'pr) Config =
  UserID :: string
  DeviceID :: string
  AccessToken :: string
  HS :: string
  RoomCacheSize :: int
  RoomCacheAge :: "64 word"
  NotifySound :: bool
  SendToVerifiedOnly :: bool
  Dir :: path
  DataDir :: path
  CacheDir :: path
  HistoryPath :: path
  RoomListPath :: path
  MediaDir :: path
  DownloadDir :: path
  StateDir :: path
  Keymap :: string
  KeyMap :: KeyMap
  Preferences :: UserPreferences
  AuthCache :: AuthCache
  Rooms :: "'rc option"
  PushRules :: "'pr option"
  nosave :: bool

type_synonym ('rc, 'pr) state = "('rc, 'pr) Config \<times> fs"

text \<open>The zero values Go gives a struct that is declared and not initialised.\<close>

definition zero_AuthCache :: AuthCache where
  "zero_AuthCache = \<lparr>NextBatch = [], FilterID = [], InitialSyncDone = False\<rparr>"

definition zero_UserPreferences :: UserPreferences where
  "zero_UserPreferences =
     \<lparr>HideUserList = False, HideRoomList = False, BareMessageView = False,
      DisableImages = False, DisableTypingNotifs = False, DisableEmojis = False,
      DisableMarkdown = False, DisableHTML = False, DisableDownloads = False,
      DisableNotifications = False, DisableShowURLs = False\<rparr>"

definition zero_KeyMap :: KeyMap where
  "zero_KeyMap =
     \<lparr>VerificationDone = [], VerificationSubmit = [], FuzzySearchOpen = [],
      FuzzySearchClose = [], FuzzySearchNext = [], FuzzySearchPrev = [],
      FuzzySearchChoose = [], RoomNext = [], RoomPrev = [], RoomViewTop = [],
      RoomViewBottom = [], RoomViewScrollUp = [], RoomViewScrollDown = [],
      MessageSelectCancel = [], MessageSelectNext = [], MessageSelectPrev = [],
      MessageSelectChoose = [], MessageInputNewline = [], MessageInputClear = [],
      MessageInputSend = [], BareViewOpen = []\<rparr>"

definition NewConfig :: "path \<Rightarrow> path \<Rightarrow> path \<Rightarrow> path \<Rightarrow> ('rc, 'pr) Config" where
  "NewConfig configDir dataDir cacheDir downloadDir =
     \<lparr>UserID = [], DeviceID = [], AccessToken = [], HS = [],
      RoomCacheSize = 32, RoomCacheAge = 1 * 60,
      NotifySound = True, SendToVerifiedOnly = False,
      Dir = configDir, DataDir = dataDir, CacheDir = cacheDir,
      HistoryPath = Join cacheDir ''history.db'',
      RoomListPath = Join cacheDir ''rooms.gob.gz'',
      MediaDir = Join cacheDir ''media'',
      DownloadDir = downloadDir,
      StateDir = Join cacheDir ''state'',
      Keymap = ''default'',
      KeyMap = zero_KeyMap, Preferences = zero_UserPreferences, AuthCache = zero_AuthCache,
      Rooms = None, PushRules = None, nosave = False\<rparr>"

section \<open>What the code calls and this file does not contain\<close>

text \<open>
  A codec stands for one of \<^verbatim>\<open>yaml.Marshal\<close>/\<^verbatim>\<open>yaml.Unmarshal\<close> (gopkg.in/yaml.v2) and
  \<^verbatim>\<open>json.Marshal\<close>/\<^verbatim>\<open>json.Unmarshal\<close> (encoding/json) at one section type. Unmarshal
  writes into its target, so it takes the target's old value; \<open>None\<close> is the error
  return.
\<close>

record 'a codec =
  Marshal :: "'a \<Rightarrow> bytes option"
  Unmarshal :: "bytes \<Rightarrow> 'a \<Rightarrow> 'a option"

record 'a formats =
  yaml :: "'a codec"
  json :: "'a codec"

text \<open>
  The panics, named as the specification names them: the five of \<^verbatim>\<open>load\<close> and
  \<^verbatim>\<open>save\<close>, the one of the room accessors with its message, an error that the room
  cache returns and \<^verbatim>\<open>LoadAll\<close> or \<^verbatim>\<open>SaveAll\<close> passes to \<^verbatim>\<open>panic\<close>, and the runtime's
  panic on a nil pointer.
\<close>

datatype error =
    DirectoryCreateFailed errno
  | FileReadFailed errno
  | MalformedData
  | EncodeFailed
  | FileWriteFailed errno
  | UnsupportedOperation string
  | CollaboratorFailed
  | NilDereference

text \<open>
  The codecs of the five section types, and the room cache of package
  \<^verbatim>\<open>matrix/rooms\<close>: its constructor (the callback \<^verbatim>\<open>config.GetUserID\<close> it also takes is
  the same at every call and reaches the operations below as the current user id) and
  the three methods the aggregate calls, each of which may fail and may write the disk.
\<close>

record ('rc, 'pr) deps =
  fmt_config :: "('rc, 'pr) Config formats"
  fmt_preferences :: "UserPreferences formats"
  fmt_auth :: "AuthCache formats"
  fmt_pushrules :: "'pr option formats"
  fmt_keymap :: "KeyMap formats"
  NewRoomCache :: "path \<Rightarrow> path \<Rightarrow> int \<Rightarrow> 64 word \<Rightarrow> 'rc"
  LoadList :: "string \<Rightarrow> 'rc \<Rightarrow> fs \<Rightarrow> error + ('rc \<times> fs)"
  SaveList :: "string \<Rightarrow> 'rc \<Rightarrow> fs \<Rightarrow> error + ('rc \<times> fs)"
  SaveLoadedRooms :: "string \<Rightarrow> 'rc \<Rightarrow> fs \<Rightarrow> error + ('rc \<times> fs)"

definition seq :: "error + 'a \<Rightarrow> ('a \<Rightarrow> error + 'b) \<Rightarrow> error + 'b" where
  "seq r f = (case r of Inl e \<Rightarrow> Inl e | Inr x \<Rightarrow> f x)"

section \<open>The section store: load and save\<close>

text \<open>
  \<^verbatim>\<open>func (config *Config) load(name, dir, file string, target interface{})\<close>. A panic
  is the \<open>Inl\<close> result. \<open>name\<close> only feeds the debug output.
\<close>

definition load :: "'a formats \<Rightarrow> string \<Rightarrow> path \<Rightarrow> string \<Rightarrow> 'a \<Rightarrow> fs \<Rightarrow> error + ('a \<times> fs)" where
  "load fmt name dir file target disk =
     (case MkdirAll disk dir of
        Inl e \<Rightarrow> Inl (DirectoryCreateFailed e)
      | Inr disk1 \<Rightarrow>
         (case ReadFile disk1 (Join dir file) of
            Inl e \<Rightarrow> if IsNotExist e then Inr (target, disk1) else Inl (FileReadFailed e)
          | Inr data \<Rightarrow>
             (case (if HasSuffix file ''.yaml''
                    then Unmarshal (yaml fmt) data target
                    else Unmarshal (json fmt) data target) of
                None \<Rightarrow> Inl MalformedData
              | Some target' \<Rightarrow> Inr (target', disk1))))"

text \<open>
  \<^verbatim>\<open>func (config *Config) save(name, dir, file string, source interface{})\<close>; of the
  receiver it reads \<^verbatim>\<open>nosave\<close> only.
\<close>

definition save :: "'a formats \<Rightarrow> bool \<Rightarrow> string \<Rightarrow> path \<Rightarrow> string \<Rightarrow> 'a \<Rightarrow> fs \<Rightarrow> error + fs" where
  "save fmt nosave_flag name dir file source disk =
     (if nosave_flag then Inr disk
      else case MkdirAll disk dir of
        Inl e \<Rightarrow> Inl (DirectoryCreateFailed e)
      | Inr disk1 \<Rightarrow>
         (case (if HasSuffix file ''.yaml''
                then Marshal (yaml fmt) source
                else Marshal (json fmt) source) of
            None \<Rightarrow> Inl EncodeFailed
          | Some data \<Rightarrow>
             (case WriteFile disk1 (Join dir file) data of
                Inl e \<Rightarrow> Inl (FileWriteFailed e)
              | Inr disk2 \<Rightarrow> Inr disk2)))"


section \<open>The methods of the aggregate\<close>

text \<open>
  What the two decoders can reach in a \<^verbatim>\<open>Config\<close>. yaml.v2 reads and writes the fields
  with a yaml key and skips those tagged \<^verbatim>\<open>yaml:"-"\<close> and the unexported \<^verbatim>\<open>nosave\<close>;
  encoding/json, which has no tags here, reads and writes every exported field.
  \<open>yaml_fields d c\<close> is \<open>c\<close> with the yaml-keyed fields taken from \<open>d\<close>.
\<close>

definition yaml_fields :: "('rc, 'pr) Config \<Rightarrow> ('rc, 'pr) Config \<Rightarrow> ('rc, 'pr) Config" where
  "yaml_fields d c =
     c\<lparr>UserID := UserID d, DeviceID := DeviceID d, AccessToken := AccessToken d, HS := HS d,
       RoomCacheSize := RoomCacheSize d, RoomCacheAge := RoomCacheAge d,
       NotifySound := NotifySound d, SendToVerifiedOnly := SendToVerifiedOnly d,
       DataDir := DataDir d, CacheDir := CacheDir d, HistoryPath := HistoryPath d,
       RoomListPath := RoomListPath d, MediaDir := MediaDir d, DownloadDir := DownloadDir d,
       StateDir := StateDir d, Keymap := Keymap d\<rparr>"

definition exported_fields :: "('rc, 'pr) Config \<Rightarrow> ('rc, 'pr) Config \<Rightarrow> ('rc, 'pr) Config" where
  "exported_fields d c = d\<lparr>nosave := nosave c\<rparr>"

definition zero_Config :: "('rc, 'pr) Config" where
  "zero_Config =
     \<lparr>UserID = [], DeviceID = [], AccessToken = [], HS = [],
      RoomCacheSize = 0, RoomCacheAge = 0, NotifySound = False, SendToVerifiedOnly = False,
      Dir = [], DataDir = [], CacheDir = [], HistoryPath = [], RoomListPath = [],
      MediaDir = [], DownloadDir = [], StateDir = [], Keymap = [],
      KeyMap = zero_KeyMap, Preferences = zero_UserPreferences, AuthCache = zero_AuthCache,
      Rooms = None, PushRules = None, nosave = False\<rparr>"

definition config_formats :: "('rc, 'pr) deps \<Rightarrow> ('rc, 'pr) Config formats" where
  "config_formats L =
     \<lparr>yaml =
        \<lparr>Marshal = (\<lambda>c. Marshal (yaml (fmt_config L)) (yaml_fields c zero_Config)),
         Unmarshal = (\<lambda>data c.
           map_option (\<lambda>d. yaml_fields d c) (Unmarshal (yaml (fmt_config L)) data c))\<rparr>,
      json =
        \<lparr>Marshal = (\<lambda>c. Marshal (json (fmt_config L)) (exported_fields c zero_Config)),
         Unmarshal = (\<lambda>data c.
           map_option (\<lambda>d. exported_fields d c) (Unmarshal (json (fmt_config L)) data c))\<rparr>\<rparr>"

definition ignoring :: "fs \<Rightarrow> errno + fs \<Rightarrow> fs" where
  "ignoring disk r = (case r of Inl e \<Rightarrow> disk | Inr disk' \<Rightarrow> disk')"

definition Clear :: "('rc, 'pr) Config \<Rightarrow> fs \<Rightarrow> ('rc, 'pr) state" where
  "Clear config disk =
     (let disk1 = Remove disk (HistoryPath config);
          disk2 = Remove disk1 (RoomListPath config);
          disk3 = RemoveAll disk2 (StateDir config);
          disk4 = RemoveAll disk3 (MediaDir config);
          disk5 = RemoveAll disk4 (CacheDir config)
      in (config\<lparr>nosave := True\<rparr>, disk5))"

definition ClearData :: "('rc, 'pr) Config \<Rightarrow> fs \<Rightarrow> fs" where
  "ClearData config disk = RemoveAll disk (DataDir config)"

definition CreateCacheDirs :: "('rc, 'pr) Config \<Rightarrow> fs \<Rightarrow> fs" where
  "CreateCacheDirs config disk =
     (let disk1 = ignoring disk (MkdirAll disk (CacheDir config));
          disk2 = ignoring disk1 (MkdirAll disk1 (DataDir config));
          disk3 = ignoring disk2 (MkdirAll disk2 (StateDir config));
          disk4 = ignoring disk3 (MkdirAll disk3 (MediaDir config))
      in disk4)"

definition GetUserID :: "('rc, 'pr) Config \<Rightarrow> string" where
  "GetUserID config = UserID config"

definition DeleteSession :: "('rc, 'pr) deps \<Rightarrow> ('rc, 'pr) Config \<Rightarrow> fs \<Rightarrow> ('rc, 'pr) state" where
  "DeleteSession L config disk =
     (let config1 = config\<lparr>AuthCache := (AuthCache config)\<lparr>NextBatch := []\<rparr>\<rparr>;
          config2 = config1\<lparr>AuthCache := (AuthCache config1)\<lparr>InitialSyncDone := False\<rparr>\<rparr>;
          config3 = config2\<lparr>AccessToken := []\<rparr>;
          config4 = config3\<lparr>DeviceID := []\<rparr>;
          config5 = config4\<lparr>Rooms := Some (NewRoomCache L (RoomListPath config4)
                      (StateDir config4) (RoomCacheSize config4) (RoomCacheAge config4))\<rparr>;
          config6 = config5\<lparr>PushRules := None\<rparr>;
          disk1 = ClearData config6 disk;
          (config7, disk2) = Clear config6 disk1;
          config8 = config7\<lparr>nosave := False\<rparr>;
          disk3 = CreateCacheDirs config8 disk2
      in (config8, disk3))"

definition Load :: "('rc, 'pr) deps \<Rightarrow> ('rc, 'pr) Config \<Rightarrow> fs \<Rightarrow> error + ('rc, 'pr) state" where
  "Load L config disk =
     seq (load (config_formats L) ''config'' (Dir config) ''config.yaml'' config disk)
       (\<lambda>(config1, disk1). Inr (config1, CreateCacheDirs config1 disk1))"

definition Save :: "('rc, 'pr) deps \<Rightarrow> ('rc, 'pr) Config \<Rightarrow> fs \<Rightarrow> error + fs" where
  "Save L config disk =
     save (config_formats L) (nosave config) ''config'' (Dir config) ''config.yaml'' config disk"

definition LoadPreferences :: "('rc, 'pr) deps \<Rightarrow> ('rc, 'pr) Config \<Rightarrow> fs \<Rightarrow> error + ('rc, 'pr) state" where
  "LoadPreferences L config disk =
     seq (load (fmt_preferences L) ''user preferences'' (CacheDir config) ''preferences.yaml''
            (Preferences config) disk)
       (\<lambda>(target, disk1). Inr (config\<lparr>Preferences := target\<rparr>, disk1))"

definition SavePreferences :: "('rc, 'pr) deps \<Rightarrow> ('rc, 'pr) Config \<Rightarrow> fs \<Rightarrow> error + fs" where
  "SavePreferences L config disk =
     save (fmt_preferences L) (nosave config) ''user preferences'' (CacheDir config)
       ''preferences.yaml'' (Preferences config) disk"

definition LoadAuthCache :: "('rc, 'pr) deps \<Rightarrow> ('rc, 'pr) Config \<Rightarrow> fs \<Rightarrow> error + ('rc, 'pr) state" where
  "LoadAuthCache L config disk =
     seq (load (fmt_auth L) ''auth cache'' (CacheDir config) ''auth-cache.yaml''
            (AuthCache config) disk)
       (\<lambda>(target, disk1). Inr (config\<lparr>AuthCache := target\<rparr>, disk1))"

definition SaveAuthCache :: "('rc, 'pr) deps \<Rightarrow> ('rc, 'pr) Config \<Rightarrow> fs \<Rightarrow> error + fs" where
  "SaveAuthCache L config disk =
     save (fmt_auth L) (nosave config) ''auth cache'' (CacheDir config) ''auth-cache.yaml''
       (AuthCache config) disk"

definition LoadPushRules :: "('rc, 'pr) deps \<Rightarrow> ('rc, 'pr) Config \<Rightarrow> fs \<Rightarrow> error + ('rc, 'pr) state" where
  "LoadPushRules L config disk =
     seq (load (fmt_pushrules L) ''push rules'' (CacheDir config) ''pushrules.json''
            (PushRules config) disk)
       (\<lambda>(target, disk1). Inr (config\<lparr>PushRules := target\<rparr>, disk1))"

definition SavePushRules :: "('rc, 'pr) deps \<Rightarrow> ('rc, 'pr) Config \<Rightarrow> fs \<Rightarrow> error + fs" where
  "SavePushRules L config disk =
     (if PushRules config = None then Inr disk
      else save (fmt_pushrules L) (nosave config) ''push rules'' (CacheDir config)
             ''pushrules.json'' (PushRules config) disk)"

definition LoadKeymap :: "('rc, 'pr) deps \<Rightarrow> ('rc, 'pr) Config \<Rightarrow> fs \<Rightarrow> error + ('rc, 'pr) state" where
  "LoadKeymap L config disk =
     seq (load (fmt_keymap L) ''keymap'' (Join (Dir config) ''keymaps'')
            (Keymap config @ ''.yaml'') (KeyMap config) disk)
       (\<lambda>(target, disk1). Inr (config\<lparr>KeyMap := target\<rparr>, disk1))"

text \<open>
  \<^verbatim>\<open>LoadAll\<close> and \<^verbatim>\<open>SaveAll\<close>. A method of the room cache called through a nil
  \<^verbatim>\<open>config.Rooms\<close> is the runtime's nil-dereference panic.
\<close>

definition LoadAll :: "('rc, 'pr) deps \<Rightarrow> ('rc, 'pr) Config \<Rightarrow> fs \<Rightarrow> error + ('rc, 'pr) state" where
  "LoadAll L config disk =
     seq (Load L config disk) (\<lambda>(config1, disk1).
       let config2 = config1\<lparr>Rooms := Some (NewRoomCache L (RoomListPath config1)
                       (StateDir config1) (RoomCacheSize config1) (RoomCacheAge config1))\<rparr>
       in seq (LoadAuthCache L config2 disk1) (\<lambda>(config3, disk3).
          seq (LoadPushRules L config3 disk3) (\<lambda>(config4, disk4).
          seq (LoadPreferences L config4 disk4) (\<lambda>(config5, disk5).
            case Rooms config5 of
              None \<Rightarrow> Inl NilDereference
            | Some rc \<Rightarrow>
               seq (LoadList L (GetUserID config5) rc disk5)
                 (\<lambda>(rc', disk6). Inr (config5\<lparr>Rooms := Some rc'\<rparr>, disk6))))))"

definition SaveAll :: "('rc, 'pr) deps \<Rightarrow> ('rc, 'pr) Config \<Rightarrow> fs \<Rightarrow> error + ('rc, 'pr) state" where
  "SaveAll L config disk =
     seq (Save L config disk) (\<lambda>disk1.
     seq (SaveAuthCache L config disk1) (\<lambda>disk2.
     seq (SavePushRules L config disk2) (\<lambda>disk3.
     seq (SavePreferences L config disk3) (\<lambda>disk4.
       case Rooms config of
         None \<Rightarrow> Inl NilDereference
       | Some rc \<Rightarrow>
          seq (SaveList L (GetUserID config) rc disk4) (\<lambda>(rc1, disk5).
          seq (SaveLoadedRooms L (GetUserID config) rc1 disk5)
            (\<lambda>(rc2, disk6). Inr (config\<lparr>Rooms := Some rc2\<rparr>, disk6)))))))"

text \<open>The auth-cache accessors; the user id argument is ignored, as in the source.\<close>

definition SaveFilterID :: "('rc, 'pr) deps \<Rightarrow> ('rc, 'pr) Config \<Rightarrow> fs \<Rightarrow> string \<Rightarrow> string \<Rightarrow> error + ('rc, 'pr) state" where
  "SaveFilterID L config disk uid filterID =
     (let config1 = config\<lparr>AuthCache := (AuthCache config)\<lparr>FilterID := filterID\<rparr>\<rparr>
      in seq (SaveAuthCache L config1 disk) (\<lambda>disk1. Inr (config1, disk1)))"

definition LoadFilterID :: "('rc, 'pr) Config \<Rightarrow> string \<Rightarrow> string" where
  "LoadFilterID config uid = FilterID (AuthCache config)"

definition SaveNextBatch :: "('rc, 'pr) deps \<Rightarrow> ('rc, 'pr) Config \<Rightarrow> fs \<Rightarrow> string \<Rightarrow> string \<Rightarrow> error + ('rc, 'pr) state" where
  "SaveNextBatch L config disk uid nextBatch =
     (let config1 = config\<lparr>AuthCache := (AuthCache config)\<lparr>NextBatch := nextBatch\<rparr>\<rparr>
      in seq (SaveAuthCache L config1 disk) (\<lambda>disk1. Inr (config1, disk1)))"

definition LoadNextBatch :: "('rc, 'pr) Config \<Rightarrow> string \<Rightarrow> string" where
  "LoadNextBatch config uid = NextBatch (AuthCache config)"

text \<open>
  \<^verbatim>\<open>SaveRoom\<close> and \<^verbatim>\<open>LoadRoom\<close> consist of one \<^verbatim>\<open>panic\<close> each; \<open>'room\<close> is
  \<^verbatim>\<open>*mautrix.Room\<close>.
\<close>

definition SaveRoom :: "('rc, 'pr) Config \<Rightarrow> 'room \<Rightarrow> error + unit" where
  "SaveRoom config room = Inl (UnsupportedOperation ''SaveRoom is not supported'')"

definition LoadRoom :: "('rc, 'pr) Config \<Rightarrow> string \<Rightarrow> error + 'room" where
  "LoadRoom config roomID = Inl (UnsupportedOperation ''LoadRoom is not supported'')"


section \<open>The aggregate as a state machine\<close>

text \<open>
  Everything that can happen to an aggregate: a call of one of its methods, or code of
  another package assigning its exported fields (\<open>OpAssign\<close>; the unexported
  \<^verbatim>\<open>nosave\<close> is out of its reach). A step that panics has no next state.
\<close>

datatype ('rc, 'pr, 'room) op =
    OpClear
  | OpClearData
  | OpCreateCacheDirs
  | OpDeleteSession
  | OpLoadAll
  | OpLoad
  | OpSaveAll
  | OpSave
  | OpLoadPreferences
  | OpSavePreferences
  | OpLoadAuthCache
  | OpSaveAuthCache
  | OpLoadPushRules
  | OpSavePushRules
  | OpLoadKeymap
  | OpGetUserID
  | OpSaveFilterID string string
  | OpLoadFilterID string
  | OpSaveNextBatch string string
  | OpLoadNextBatch string
  | OpSaveRoom 'room
  | OpLoadRoom string
  | OpAssign "('rc, 'pr) Config \<Rightarrow> ('rc, 'pr) Config"

definition keep :: "('rc, 'pr) Config \<Rightarrow> error + fs \<Rightarrow> error + ('rc, 'pr) state" where
  "keep config r = seq r (\<lambda>disk'. Inr (config, disk'))"

fun exec :: "('rc, 'pr) deps \<Rightarrow> ('rc, 'pr, 'room) op \<Rightarrow> ('rc, 'pr) state \<Rightarrow> error + ('rc, 'pr) state" where
  "exec L OpClear (config, disk) = Inr (Clear config disk)"
| "exec L OpClearData (config, disk) = Inr (config, ClearData config disk)"
| "exec L OpCreateCacheDirs (config, disk) = Inr (config, CreateCacheDirs config disk)"
| "exec L OpDeleteSession (config, disk) = Inr (DeleteSession L config disk)"
| "exec L OpLoadAll (config, disk) = LoadAll L config disk"
| "exec L OpLoad (config, disk) = Load L config disk"
| "exec L OpSaveAll (config, disk) = SaveAll L config disk"
| "exec L OpSave (config, disk) = keep config (Save L config disk)"
| "exec L OpLoadPreferences (config, disk) = LoadPreferences L config disk"
| "exec L OpSavePreferences (config, disk) = keep config (SavePreferences L config disk)"
| "exec L OpLoadAuthCache (config, disk) = LoadAuthCache L config disk"
| "exec L OpSaveAuthCache (config, disk) = keep config (SaveAuthCache L config disk)"
| "exec L OpLoadPushRules (config, disk) = LoadPushRules L config disk"
| "exec L OpSavePushRules (config, disk) = keep config (SavePushRules L config disk)"
| "exec L OpLoadKeymap (config, disk) = LoadKeymap L config disk"
| "exec L OpGetUserID (config, disk) = Inr (config, disk)"
| "exec L (OpSaveFilterID uid filterID) (config, disk) = SaveFilterID L config disk uid filterID"
| "exec L (OpLoadFilterID uid) (config, disk) = Inr (config, disk)"
| "exec L (OpSaveNextBatch uid nextBatch) (config, disk) = SaveNextBatch L config disk uid nextBatch"
| "exec L (OpLoadNextBatch uid) (config, disk) = Inr (config, disk)"
| "exec L (OpSaveRoom room) (config, disk) = seq (SaveRoom config room) (\<lambda>u. Inr (config, disk))"
| "exec L (OpLoadRoom roomID) (config, disk) =
     seq (LoadRoom config roomID) (\<lambda>room :: 'room. Inr (config, disk))"
| "exec L (OpAssign g) (config, disk) = Inr (exported_fields (g config) config, disk)"

fun run :: "('rc, 'pr) deps \<Rightarrow> ('rc, 'pr, 'room) op list \<Rightarrow> ('rc, 'pr) state \<Rightarrow> error + ('rc, 'pr) state" where
  "run L [] s = Inr s"
| "run L (x # xs) s = seq (exec L x s) (run L xs)"

section \<open>A concrete instance\<close>

text \<open>
  One instance of the outside code, for evaluating the model: a codec that encodes every
  value as the empty byte string and rejects whatever it is given to decode, so that a
  load that reaches the decoder panics, and a room cache that is the tuple of its
  constructor's arguments and keeps its list in memory.
\<close>

definition sample_codec :: "'a codec" where
  "sample_codec = \<lparr>Marshal = (\<lambda>v. Some []), Unmarshal = (\<lambda>data target. None)\<rparr>"

definition sample_formats :: "'a formats" where
  "sample_formats = \<lparr>yaml = sample_codec, json = sample_codec\<rparr>"

definition sample_deps :: "(path \<times> path \<times> int \<times> 64 word, string) deps" where
  "sample_deps =
     \<lparr>fmt_config = sample_formats, fmt_preferences = sample_formats,
      fmt_auth = sample_formats, fmt_pushrules = sample_formats, fmt_keymap = sample_formats,
      NewRoomCache = (\<lambda>listPath directory maxSize maxAge. (listPath, directory, maxSize, maxAge)),
      LoadList = (\<lambda>uid rc disk. Inr (rc, disk)),
      SaveList = (\<lambda>uid rc disk. Inr (rc, disk)),
      SaveLoadedRooms = (\<lambda>uid rc disk. Inr (rc, disk))\<rparr>"

definition sample_disk :: fs where
  "sample_disk =
     [([''etc''], Directory),
      ([''etc'', ''gomuks''], Directory),
      ([''etc'', ''gomuks'', ''config.yaml''], Regular [1]),
      ([''var''], Directory),
      ([''var'', ''data''], Directory),
      ([''var'', ''cache''], Directory),
      ([''var'', ''cache'', ''auth-cache.yaml''], Regular [2]),
      ([''var'', ''cache'', ''history.db''], Regular [3])]"

definition sample_config :: "(path \<times> path \<times> int \<times> 64 word, string) Config" where
  "sample_config = NewConfig [''etc'', ''gomuks''] [''var'', ''data''] [''var'', ''cache''] [''home'', ''dl'']"

text \<open>The same aggregate after a login, a first sync and a change of one preference.\<close>

definition logged_in_config :: "(path \<times> path \<times> int \<times> 64 word, string) Config" where
  "logged_in_config =
     sample_config
       \<lparr>UserID := ''@u:example.org'', DeviceID := ''DEVICE'', AccessToken := ''token'',
        HS := ''https://example.org'',
        Preferences := zero_UserPreferences\<lparr>HideUserList := True\<rparr>,
        AuthCache := \<lparr>NextBatch = ''s72594'', FilterID = ''abc123'', InitialSyncDone = True\<rparr>,
        PushRules := Some ''rules''\<rparr>"


text \<open>
  The logged-in aggregate once more, with three paths as a \<^verbatim>\<open>config.yaml\<close> may set them
  (\<^verbatim>\<open>history_path\<close>, \<^verbatim>\<open>room_list_path\<close>, \<^verbatim>\<open>data_dir\<close>): the history path is a
  directory that holds the room list, and the data directory lies below a regular file.
\<close>

definition relocated_config :: "(path \<times> path \<times> int \<times> 64 word, string) Config" where
  "relocated_config =
     logged_in_config
       \<lparr>HistoryPath := [''var'', ''h''], RoomListPath := [''var'', ''h'', ''r''],
        DataDir := [''blk'', ''data'']\<rparr>"

definition relocated_disk :: fs where
  "relocated_disk =
     [([''var''], Directory),
      ([''var'', ''h''], Directory),
      ([''var'', ''h'', ''r''], Regular [4]),
      ([''var'', ''cache''], Directory),
      ([''blk''], Regular [5])]"

section \<open>The section registry\<close>





section \<open>Predicates on the disk\<close>

text \<open>
  A disk of fresh directories: it holds directories only, none of the four files that
  \<^verbatim>\<open>LoadAll\<close> reads exists, and neither the configuration directory nor the data
  directory lies at or below the place of a section file of the cache directory, where
  creating it would put a directory.
\<close>

definition no_regular :: "fs \<Rightarrow> bool" where
  "no_regular disk = list_all (\<lambda>(p, n). n = Directory) disk"

definition fresh_directories :: "path \<Rightarrow> path \<Rightarrow> path \<Rightarrow> fs \<Rightarrow> bool" where
  "fresh_directories configDir dataDir cacheDir disk =
     (no_regular disk \<and> Stat disk (Join configDir ''config.yaml'') = None \<and>
      list_all (\<lambda>f. Stat disk (Join cacheDir f) = None
                   \<and> \<not> prefix (Join cacheDir f) configDir
                   \<and> \<not> prefix (Join cacheDir f) dataDir)
        [''auth-cache.yaml'', ''pushrules.json'', ''preferences.yaml''])"

definition is_regular :: "fs \<Rightarrow> path \<Rightarrow> bool" where
  "is_regular disk p = (case Stat disk p of Some (Regular d) \<Rightarrow> True | _ \<Rightarrow> False)"

text \<open>A directory can be made where no regular file stands on its path.\<close>

definition creatable :: "fs \<Rightarrow> path \<Rightarrow> bool" where
  "creatable disk p = list_all (\<lambda>q. \<not> is_regular disk q) (prefixes p)"

text \<open>
  A path at or below one of the four directories that \<^verbatim>\<open>CreateCacheDirs\<close> makes;
  \<^verbatim>\<open>NewConfig\<close> puts the history file and the room list there.
\<close>

definition in_cache_dirs :: "('rc, 'pr) Config \<Rightarrow> path \<Rightarrow> bool" where
  "in_cache_dirs config p =
     list_ex (\<lambda>d. prefix d p) [CacheDir config, DataDir config, StateDir config, MediaDir config]"

text \<open>A well-formed disk: whatever it lists lies in a directory.\<close>

definition wf_fs :: "fs \<Rightarrow> bool" where
  "wf_fs disk = list_all (\<lambda>(p, n). Stat disk (butlast p) = Some Directory) disk"

section \<open>Joining a single component\<close>

lemma split_sep_single: "CHR ''/'' \<notin> set name \<Longrightarrow> split_sep name = [name]"
  by (induction name) auto

lemma Join_single: "single_component name \<Longrightarrow> Join dir name = dir @ [name]"
  by (simp add: Join_def single_component_def split_sep_single clean_step_def)


section \<open>Suppression of saves\<close>

lemma save_suppressed: "save fmt True name dir file source disk = Inr disk"
  by (simp add: save_def)

lemma seq_Inr: "seq r f = Inr y \<longleftrightarrow> (\<exists>x. r = Inr x \<and> f x = Inr y)"
  by (cases r) (simp_all add: seq_def)

text \<open>What \<open>load\<close> can hand back as the target: the old value, or a decoder's output.\<close>

lemma load_result:
  assumes "load fmt name dir file target disk = Inr (target', disk')"
  shows "target' = target \<or> (\<exists>data. Unmarshal (yaml fmt) data target = Some target')
           \<or> (\<exists>data. Unmarshal (json fmt) data target = Some target')"
proof -
  obtain disk1 where m: "MkdirAll disk dir = Inr disk1"
    using assms by (cases "MkdirAll disk dir") (simp_all add: load_def)
  show ?thesis
  proof (cases "ReadFile disk1 (Join dir file)")
    case (Inl e)
    then show ?thesis using assms m by (simp add: load_def split: if_splits)
  next
    case (Inr data)
    then show ?thesis using assms m
      by (cases "HasSuffix file ''.yaml''") (auto simp: load_def split: option.splits)
  qed
qed

lemma nosave_yaml_fields: "nosave (yaml_fields d c) = nosave c"
  by (simp add: yaml_fields_def)

lemma nosave_exported_fields: "nosave (exported_fields d c) = nosave c"
  by (simp add: exported_fields_def)

lemma load_config_nosave:
  assumes "load (config_formats L) name dir file config disk = Inr (config', disk')"
  shows "nosave config' = nosave config"
proof -
  from load_result[OF assms] consider "config' = config"
    | data where "Unmarshal (yaml (config_formats L)) data config = Some config'"
    | data where "Unmarshal (json (config_formats L)) data config = Some config'"
    by blast
  then show ?thesis
  proof cases
    case 1
    then show ?thesis by simp
  next
    case 2
    then obtain d where "config' = yaml_fields d config"
      by (auto simp: config_formats_def)
    then show ?thesis by (simp add: nosave_yaml_fields)
  next
    case 3
    then obtain d where "config' = exported_fields d config"
      by (auto simp: config_formats_def)
    then show ?thesis by (simp add: nosave_exported_fields)
  qed
qed

lemma Load_nosave: "Load L config disk = Inr (config', disk') \<Longrightarrow> nosave config' = nosave config"
  by (auto simp: Load_def seq_Inr dest: load_config_nosave)

lemma LoadPreferences_nosave:
  "LoadPreferences L config disk = Inr (config', disk') \<Longrightarrow> nosave config' = nosave config"
  by (auto simp: LoadPreferences_def seq_Inr)

lemma LoadAuthCache_nosave:
  "LoadAuthCache L config disk = Inr (config', disk') \<Longrightarrow> nosave config' = nosave config"
  by (auto simp: LoadAuthCache_def seq_Inr)

lemma LoadPushRules_nosave:
  "LoadPushRules L config disk = Inr (config', disk') \<Longrightarrow> nosave config' = nosave config"
  by (auto simp: LoadPushRules_def seq_Inr)

lemma LoadKeymap_nosave:
  "LoadKeymap L config disk = Inr (config', disk') \<Longrightarrow> nosave config' = nosave config"
  by (auto simp: LoadKeymap_def seq_Inr)

lemma LoadAll_nosave:
  "LoadAll L config disk = Inr (config', disk') \<Longrightarrow> nosave config' = nosave config"
  by (auto simp: LoadAll_def seq_Inr Let_def split: option.splits
      dest!: Load_nosave LoadAuthCache_nosave LoadPushRules_nosave LoadPreferences_nosave)

lemma SaveAll_nosave:
  "SaveAll L config disk = Inr (config', disk') \<Longrightarrow> nosave config' = nosave config"
  by (auto simp: SaveAll_def seq_Inr split: option.splits)

lemma nosave_Clear: "nosave (fst (Clear config disk))"
  by (simp add: Clear_def Let_def)

lemma nosave_DeleteSession: "\<not> nosave (fst (DeleteSession L config disk))"
  by (simp add: DeleteSession_def Let_def Clear_def)

text \<open>Only \<^verbatim>\<open>Clear\<close> and \<^verbatim>\<open>DeleteSession\<close> write the flag.\<close>

lemma exec_nosave:
  assumes "exec L x (config, disk) = Inr (config', disk')" "x \<noteq> OpClear" "x \<noteq> OpDeleteSession"
  shows "nosave config' = nosave config"
proof (cases x)
  case OpLoadAll
  then show ?thesis using assms LoadAll_nosave by fastforce
next
  case OpLoad
  then show ?thesis using assms Load_nosave by fastforce
next
  case OpSaveAll
  then show ?thesis using assms SaveAll_nosave by fastforce
next
  case OpLoadPreferences
  then show ?thesis using assms LoadPreferences_nosave by fastforce
next
  case OpLoadAuthCache
  then show ?thesis using assms LoadAuthCache_nosave by fastforce
next
  case OpLoadPushRules
  then show ?thesis using assms LoadPushRules_nosave by fastforce
next
  case OpLoadKeymap
  then show ?thesis using assms LoadKeymap_nosave by fastforce
next
  case (OpSaveFilterID uid f)
  then show ?thesis using assms by (auto simp: SaveFilterID_def Let_def seq_Inr)
next
  case (OpSaveNextBatch uid f)
  then show ?thesis using assms by (auto simp: SaveNextBatch_def Let_def seq_Inr)
next
  case (OpAssign g)
  then show ?thesis using assms by (auto simp: exported_fields_def)
next
  case (OpSaveRoom r)
  then show ?thesis using assms by (auto simp: SaveRoom_def seq_def)
next
  case (OpLoadRoom r)
  then show ?thesis using assms by (auto simp: LoadRoom_def seq_def)
qed (use assms in \<open>auto simp: keep_def seq_Inr\<close>)

lemma exec_keeps_suppressed:
  assumes "exec L x (config, disk) = Inr (config', disk')" "x \<noteq> OpDeleteSession" "nosave config"
  shows "nosave config'"
proof (cases "x = OpClear")
  case True
  then show ?thesis using assms by (auto simp: Clear_def Let_def)
next
  case False
  then show ?thesis using exec_nosave[OF assms(1) False assms(2)] assms(3) by simp
qed

lemma run_keeps_suppressed:
  "OpDeleteSession \<notin> set xs \<Longrightarrow> nosave (fst s) \<Longrightarrow> run L xs s = Inr s' \<Longrightarrow> nosave (fst s')"
proof (induction xs arbitrary: s)
  case Nil
  then show ?case by simp
next
  case (Cons x xs)
  from Cons.prems(3) obtain s1 where s1: "exec L x s = Inr s1" "run L xs s1 = Inr s'"
    by (auto simp: seq_Inr)
  obtain c d c1 d1 where eq: "s = (c, d)" "s1 = (c1, d1)"
    by (cases s, cases s1) auto
  have "nosave c1"
    using exec_keeps_suppressed[of L x c d c1 d1] s1(1) Cons.prems(1,2) eq by auto
  then have "nosave (fst s1)" using eq by simp
  then show ?case using Cons.IH[OF _ _ s1(2)] Cons.prems(1) by simp
qed

text \<open>
  C1. Once \<^verbatim>\<open>Clear\<close> has run, and through any further operations other than
  \<^verbatim>\<open>DeleteSession\<close> (which must not have panicked), every section save (\<^verbatim>\<open>Save\<close>,
  \<^verbatim>\<open>SaveAuthCache\<close>, \<^verbatim>\<open>SavePreferences\<close>, \<^verbatim>\<open>SavePushRules\<close> and the saves inside
  \<^verbatim>\<open>SaveFilterID\<close> and \<^verbatim>\<open>SaveNextBatch\<close>) returns without error and leaves the disk exactly
  as it was; \<^verbatim>\<open>DeleteSession\<close> returns with the flag off again.
\<close>

theorem saves_suppressed_after_Clear:
  assumes "OpDeleteSession \<notin> set xs"
    and "run L xs (Clear config disk) = Inr (config', disk')"
  shows "Save L config' disk' = Inr disk'
       \<and> SaveAuthCache L config' disk' = Inr disk'
       \<and> SavePreferences L config' disk' = Inr disk'
       \<and> SavePushRules L config' disk' = Inr disk'
       \<and> (\<exists>config''. SaveFilterID L config' disk' uid filterID = Inr (config'', disk'))
       \<and> (\<exists>config''. SaveNextBatch L config' disk' uid nextBatch = Inr (config'', disk'))
       \<and> \<not> nosave (fst (DeleteSession L config' disk'))"
proof -
  have n: "nosave config'"
    using run_keeps_suppressed[OF assms(1) _ assms(2)] nosave_Clear[of config disk] by simp
  have 1: "Save L config' disk' = Inr disk'"
    using n by (simp add: Save_def save_suppressed)
  have 2: "SaveAuthCache L config' disk' = Inr disk'"
    using n by (simp add: SaveAuthCache_def save_suppressed)
  have 3: "SavePreferences L config' disk' = Inr disk'"
    using n by (simp add: SavePreferences_def save_suppressed)
  have 4: "SavePushRules L config' disk' = Inr disk'"
    using n by (simp add: SavePushRules_def save_suppressed)
  have 5: "\<exists>config''. SaveFilterID L config' disk' uid filterID = Inr (config'', disk')"
    using n by (simp add: SaveFilterID_def SaveAuthCache_def save_suppressed seq_def Let_def)
  have 6: "\<exists>config''. SaveNextBatch L config' disk' uid nextBatch = Inr (config'', disk')"
    using n by (simp add: SaveNextBatch_def SaveAuthCache_def save_suppressed seq_def Let_def)
  show ?thesis using 1 2 3 4 5 6 nosave_DeleteSession by blast
qed

lemma sample_run:
  "\<exists>s. run sample_deps
          [OpSaveAuthCache, OpClearData, OpLoadAuthCache :: (path \<times> path \<times> int \<times> 64 word, string, unit) op]
          (Clear sample_config sample_disk) = Inr s"
  by (simp add: keep_def seq_def Clear_def sample_config_def NewConfig_def Let_def Join_single single_component_def
        SaveAuthCache_def save_def sample_disk_def Remove_def RemoveAll_def has_children_def
        ClearData_def LoadAuthCache_def load_def MkdirAll.simps Mkdir_def Stat_def ReadFile_def
        missing_errno.simps IsNotExist_def)

theorem saves_suppressed_after_Clear_witness:
  "\<exists>config' disk'.
     run sample_deps
       [OpSaveAuthCache, OpClearData, OpLoadAuthCache :: (path \<times> path \<times> int \<times> 64 word, string, unit) op]
       (Clear sample_config sample_disk) = Inr (config', disk')
     \<and> Save sample_deps config' disk' = Inr disk'
     \<and> SaveAuthCache sample_deps config' disk' = Inr disk'
     \<and> SavePreferences sample_deps config' disk' = Inr disk'
     \<and> SavePushRules sample_deps config' disk' = Inr disk'
     \<and> (\<exists>config''. SaveFilterID sample_deps config' disk' ''@u:example.org'' ''abc123'' = Inr (config'', disk'))
     \<and> (\<exists>config''. SaveNextBatch sample_deps config' disk' ''@u:example.org'' ''s72594'' = Inr (config'', disk'))
     \<and> \<not> nosave (fst (DeleteSession sample_deps config' disk'))"
proof -
  obtain config' disk' where r:
    "run sample_deps
       [OpSaveAuthCache, OpClearData, OpLoadAuthCache :: (path \<times> path \<times> int \<times> 64 word, string, unit) op]
       (Clear sample_config sample_disk) = Inr (config', disk')"
    using sample_run by fastforce
  have "OpDeleteSession \<notin> set [OpSaveAuthCache, OpClearData,
          OpLoadAuthCache :: (path \<times> path \<times> int \<times> 64 word, string, unit) op]"
    by simp
  from saves_suppressed_after_Clear[OF this r] r show ?thesis by blast
qed

section \<open>The transitions of the flag\<close>

text \<open>
  C2. A step that returns leaves \<^verbatim>\<open>nosave\<close> set when it is \<^verbatim>\<open>Clear\<close>, cleared when
  it is \<^verbatim>\<open>DeleteSession\<close>, and as it was for every other operation, assignments from
  outside the package included; \<^verbatim>\<open>ClearData\<close> changes no field of the aggregate at all.
\<close>

theorem nosave_transitions:
  assumes "exec L x (config, disk) = Inr (config', disk')"
  shows "nosave config' =
           (if x = OpClear then True else if x = OpDeleteSession then False else nosave config)
       \<and> (x = OpClearData \<longrightarrow> config' = config)"
proof (cases "x = OpClear \<or> x = OpDeleteSession")
  case True
  then show ?thesis
    using assms nosave_Clear[of config disk] nosave_DeleteSession[of L config disk] by auto
next
  case False
  then have "nosave config' = nosave config"
    using exec_nosave[OF assms] by simp
  moreover have "x = OpClearData \<longrightarrow> config' = config"
    using assms by auto
  ultimately show ?thesis using False by simp
qed

theorem nosave_transitions_witness:
  "nosave (fst (Clear sample_config sample_disk)) = True
   \<and> nosave (fst (DeleteSession sample_deps (fst (Clear sample_config sample_disk))
                  (snd (Clear sample_config sample_disk)))) = False
   \<and> nosave sample_config = False
   \<and> fst (sample_config, ClearData sample_config sample_disk) = sample_config"
proof -
  obtain c1 d1 where cl: "Clear sample_config sample_disk = (c1, d1)"
    by fastforce
  obtain c2 d2 where ds: "DeleteSession sample_deps c1 d1 = (c2, d2)"
    by fastforce
  have a: "exec sample_deps (OpClear :: (path \<times> path \<times> int \<times> 64 word, string, unit) op)
             (sample_config, sample_disk) = Inr (c1, d1)"
    using cl by simp
  have b: "exec sample_deps (OpDeleteSession :: (path \<times> path \<times> int \<times> 64 word, string, unit) op)
             (c1, d1) = Inr (c2, d2)"
    using ds by simp
  have c: "exec sample_deps (OpClearData :: (path \<times> path \<times> int \<times> 64 word, string, unit) op)
             (sample_config, sample_disk) = Inr (sample_config, ClearData sample_config sample_disk)"
    by simp
  have d: "nosave sample_config = False"
    by (simp add: sample_config_def NewConfig_def)
  show ?thesis
    using nosave_transitions[OF a] nosave_transitions[OF b] nosave_transitions[OF c] d cl ds
    by simp
qed

section \<open>An absent push ruleset\<close>

text \<open>
  C7. With \<^verbatim>\<open>config.PushRules\<close> nil, \<^verbatim>\<open>SavePushRules\<close> returns at once, whatever the
  codec and the flag are, and leaves the disk as it was; \<^verbatim>\<open>SaveAll\<close> is then the sequence
  of its other steps, with nothing done for the push rules.
\<close>

theorem SavePushRules_absent:
  assumes "PushRules config = None"
  shows "SavePushRules L config disk = Inr disk
       \<and> SaveAll L config disk =
           seq (Save L config disk) (\<lambda>disk1.
           seq (SaveAuthCache L config disk1) (\<lambda>disk2.
           seq (SavePreferences L config disk2) (\<lambda>disk4.
             case Rooms config of
               None \<Rightarrow> Inl NilDereference
             | Some rc \<Rightarrow>
                seq (SaveList L (GetUserID config) rc disk4) (\<lambda>(rc1, disk5).
                seq (SaveLoadedRooms L (GetUserID config) rc1 disk5)
                  (\<lambda>(rc2, disk6). Inr (config\<lparr>Rooms := Some rc2\<rparr>, disk6))))))"
proof -
  have p: "SavePushRules L config d = Inr d" for d
    using assms by (simp add: SavePushRules_def)
  have "SaveAll L config disk = seq (Save L config disk) (\<lambda>disk1.
           seq (SaveAuthCache L config disk1) (\<lambda>disk2.
           seq (Inr disk2) (\<lambda>disk3.
           seq (SavePreferences L config disk3) (\<lambda>disk4.
             case Rooms config of
               None \<Rightarrow> Inl NilDereference
             | Some rc \<Rightarrow>
                seq (SaveList L (GetUserID config) rc disk4) (\<lambda>(rc1, disk5).
                seq (SaveLoadedRooms L (GetUserID config) rc1 disk5)
                  (\<lambda>(rc2, disk6). Inr (config\<lparr>Rooms := Some rc2\<rparr>, disk6)))))))"
    unfolding SaveAll_def p ..
  then show ?thesis using p by (simp add: seq_def)
qed

theorem SavePushRules_absent_witness:
  "PushRules sample_config = None
   \<and> SavePushRules (sample_deps\<lparr>fmt_pushrules := \<lparr>yaml = sample_codec, json = \<lparr>Marshal = (\<lambda>v. None), Unmarshal = (\<lambda>d t. None)\<rparr>\<rparr>\<rparr>) sample_config sample_disk = Inr sample_disk"
proof -
  have h: "PushRules sample_config = None"
    by (simp add: sample_config_def NewConfig_def)
  show ?thesis using SavePushRules_absent[OF h] h by blast
qed

section \<open>The room accessors\<close>

text \<open>
  C8. \<^verbatim>\<open>SaveRoom\<close> and \<^verbatim>\<open>LoadRoom\<close> panic for every argument: each result is the
  unsupported-operation error, never a returned value.
\<close>

theorem room_accessors_unsupported:
  "SaveRoom config room = Inl (UnsupportedOperation ''SaveRoom is not supported'')
   \<and> (LoadRoom config roomID :: error + 'room) = Inl (UnsupportedOperation ''LoadRoom is not supported'')
   \<and> SaveRoom config room \<noteq> Inr u
   \<and> (LoadRoom config roomID :: error + 'room) \<noteq> Inr r"
  by (simp add: SaveRoom_def LoadRoom_def)

section \<open>Facts about the file tree\<close>

lemma Stat_snoc:
  "p \<noteq> [] \<Longrightarrow> Stat (disk @ [(p, n)]) q =
     (case Stat disk q of Some v \<Rightarrow> Some v | None \<Rightarrow> if q = p then Some n else None)"
  by (auto simp: Stat_def map_add_def split: option.splits)

lemma Stat_None_nonempty: "Stat disk p = None \<Longrightarrow> p \<noteq> []"
  by (auto simp: Stat_def)

lemma Mkdir_Inr:
  "Mkdir disk p = Inr disk' \<longleftrightarrow>
     Stat disk p = None \<and> Stat disk (butlast p) = Some Directory \<and> disk' = disk @ [(p, Directory)]"
  by (auto simp: Mkdir_def split: option.splits node.splits)

lemma MkdirAll_Stat:
  "MkdirAll disk p = Inr disk' \<Longrightarrow>
     Stat disk' p = Some Directory
     \<and> (\<forall>q. Stat disk' q = Stat disk q \<or> (Stat disk q = None \<and> prefix q p \<and> Stat disk' q = Some Directory))"
proof (induction disk p arbitrary: disk' rule: MkdirAll.induct)
  case (1 disk p)
  show ?case
  proof (cases "Stat disk p")
    case (Some n)
    then show ?thesis using "1.prems" by (cases n) (auto simp: MkdirAll.simps[of disk p])
  next
    case None
    then obtain d1 where d1: "MkdirAll disk (butlast p) = Inr d1" "Mkdir d1 p = Inr disk'"
      using "1.prems" by (auto simp: MkdirAll.simps[of disk p] split: sum.splits)
    have pne: "p \<noteq> []" using None by (rule Stat_None_nonempty)
    have ih: "Stat d1 (butlast p) = Some Directory"
      "\<And>q. Stat d1 q = Stat disk q \<or> (Stat disk q = None \<and> prefix q (butlast p) \<and> Stat d1 q = Some Directory)"
      using "1.IH"[OF None d1(1)] by auto
    have m: "Stat d1 p = None" "disk' = d1 @ [(p, Directory)]"
      using d1(2) by (auto simp: Mkdir_Inr)
    have self: "Stat disk' p = Some Directory"
      using m pne by (simp add: Stat_snoc)
    have bp: "prefix (butlast p) p" by (simp add: prefixeq_butlast)
    have "Stat disk' q = Stat disk q \<or> (Stat disk q = None \<and> prefix q p \<and> Stat disk' q = Some Directory)" for q
    proof (cases "Stat d1 q")
      case None
      then have "Stat disk q = None" using ih(2)[of q] by auto
      then show ?thesis using None m pne by (auto simp: Stat_snoc)
    next
      case (Some v)
      then have "Stat disk' q = Some v" using m pne by (simp add: Stat_snoc)
      then show ?thesis using ih(2)[of q] Some bp by (auto intro: prefix_order.trans)
    qed
    then show ?thesis using self by blast
  qed
qed

lemma MkdirAll_Stat_self: "MkdirAll disk p = Inr disk' \<Longrightarrow> Stat disk' p = Some Directory"
  using MkdirAll_Stat by blast

lemma MkdirAll_Stat_other:
  "MkdirAll disk p = Inr disk' \<Longrightarrow> \<not> prefix q p \<Longrightarrow> Stat disk' q = Stat disk q"
  using MkdirAll_Stat by blast

lemma load_not_exist:
  assumes "MkdirAll disk dir = Inr disk1" and "Stat disk (Join dir file) = None"
    and "single_component file"
  shows "load fmt name dir file target disk = Inr (target, disk1)"
proof -
  have j: "Join dir file = dir @ [file]"
    by (rule Join_single[OF assms(3)])
  have "\<not> prefix (Join dir file) dir"
    by (auto simp: j prefix_def)
  then have a: "Stat disk1 (Join dir file) = None"
    using MkdirAll_Stat_other[OF assms(1)] assms(2) by simp
  have b: "Stat disk1 (butlast (Join dir file)) = Some Directory"
    using MkdirAll_Stat_self[OF assms(1)] by (simp add: j)
  have "missing_errno disk1 (Join dir file) = ENOENT"
    using b by (simp add: missing_errno.simps[of disk1 "Join dir file"])
  then have "ReadFile disk1 (Join dir file) = Inl ENOENT"
    using a by (simp add: ReadFile_def)
  then show ?thesis using assms(1) by (simp add: load_def IsNotExist_def)
qed


section \<open>Loading a section whose file is missing\<close>

text \<open>
  With the file missing and its name a single component, the one panic left to
  \<^verbatim>\<open>load\<close> is that of its first step, the directory that cannot be made; the missing
  file itself is never an error.
\<close>

lemma load_missing_file:
  assumes "Stat disk (Join dir file) = None" and "single_component file"
  shows "load fmt name dir file target disk =
           (case MkdirAll disk dir of
              Inl e \<Rightarrow> Inl (DirectoryCreateFailed e)
            | Inr disk1 \<Rightarrow> Inr (target, disk1))"
proof (cases "MkdirAll disk dir")
  case (Inl e)
  then show ?thesis by (simp add: load_def)
next
  case (Inr disk1)
  then show ?thesis using load_not_exist[OF Inr assms] by simp
qed

text \<open>
  A name with a separator is another matter, as it is in the code. The keymap name comes
  from \<^verbatim>\<open>config.yaml\<close>: with \<^verbatim>\<open>../config\<close> the keymap load opens the main settings file
  and hands it to the decoder, and with \<^verbatim>\<open>a/b\<close> where \<^verbatim>\<open>keymaps/a\<close> is a regular file the
  keymap file does not exist and the read still fails, with \<open>ENOTDIR\<close>.
\<close>

lemma LoadKeymap_parent_name:
  "Join (Join (Dir sample_config) ''keymaps'') (''../config'' @ ''.yaml'')
     = [''etc'', ''gomuks'', ''config.yaml'']"
  "LoadKeymap sample_deps (sample_config\<lparr>Keymap := ''../config''\<rparr>) sample_disk = Inl MalformedData"
  by (simp_all add: LoadKeymap_def load_def seq_def sample_config_def NewConfig_def Join_def
        clean_step_def sample_disk_def MkdirAll.simps Mkdir_def Stat_def ReadFile_def
        HasSuffix_def suffix_def sample_deps_def sample_formats_def sample_codec_def)

lemma LoadKeymap_nested_name:
  "Stat [([''etc''], Directory), ([''etc'', ''gomuks''], Directory),
         ([''etc'', ''gomuks'', ''keymaps''], Directory),
         ([''etc'', ''gomuks'', ''keymaps'', ''a''], Regular [])]
     (Join (Join (Dir sample_config) ''keymaps'') (''a/b'' @ ''.yaml'')) = None"
  "LoadKeymap sample_deps (sample_config\<lparr>Keymap := ''a/b''\<rparr>)
     [([''etc''], Directory), ([''etc'', ''gomuks''], Directory),
      ([''etc'', ''gomuks'', ''keymaps''], Directory),
      ([''etc'', ''gomuks'', ''keymaps'', ''a''], Regular [])]
     = Inl (FileReadFailed ENOTDIR)"
  by (simp_all add: LoadKeymap_def load_def seq_def sample_config_def NewConfig_def Join_def
        clean_step_def MkdirAll.simps Mkdir_def Stat_def ReadFile_def missing_errno.simps
        IsNotExist_def)



lemma sample_mkdir_cache:
  "MkdirAll [] [''var'', ''cache''] = Inr [([''var''], Directory), ([''var'', ''cache''], Directory)]"
  by (simp add: MkdirAll.simps Mkdir_def Stat_def)



text \<open>
  C10. When the directory can be ensured, the file name is a single component and the
  file is absent, \<^verbatim>\<open>load\<close> returns the target it was given, whatever its value; in
  particular \<^verbatim>\<open>Load\<close> returns the aggregate unchanged, with the defaults that
  \<^verbatim>\<open>NewConfig\<close> or later assignments put there.
\<close>

theorem load_absent_keeps_target:
  assumes "MkdirAll disk dir = Inr disk1" and "Stat disk (Join dir file) = None"
    and "single_component file"
  shows "load fmt name dir file target disk = Inr (target, disk1)
       \<and> (dir = Dir config \<and> file = ''config.yaml'' \<longrightarrow>
            Load L config disk = Inr (config, CreateCacheDirs config disk1))"
proof -
  have 1: "load fmt name dir file target disk = Inr (target, disk1)"
    by (rule load_not_exist[OF assms])
  have 2: "Load L config disk = Inr (config, CreateCacheDirs config disk1)"
    if "dir = Dir config \<and> file = ''config.yaml''"
    using load_not_exist[OF assms, of "config_formats L" "''config''" config] that
    by (simp add: Load_def seq_def)
  show ?thesis using 1 2 by blast
qed

lemma sample_mkdir_etc:
  "MkdirAll [] [''etc'', ''gomuks''] = Inr [([''etc''], Directory), ([''etc'', ''gomuks''], Directory)]"
  by (simp add: MkdirAll.simps Mkdir_def Stat_def)

lemma sample_absent:
  "Stat [] (Join [''var'', ''cache''] ''auth-cache.yaml'') = None"
  "Stat [] (Join [''etc'', ''gomuks''] ''config.yaml'') = None"
  by (simp_all add: Stat_def Join_single single_component_def)

lemma sample_single:
  "single_component ''auth-cache.yaml''" "single_component ''config.yaml''"
  by (simp_all add: single_component_def)

theorem load_absent_keeps_target_witness:
  "load (fmt_auth sample_deps) ''auth cache'' [''var'', ''cache''] ''auth-cache.yaml''
      \<lparr>NextBatch = ''s72594'', FilterID = ''abc123'', InitialSyncDone = True\<rparr> []
     = Inr (\<lparr>NextBatch = ''s72594'', FilterID = ''abc123'', InitialSyncDone = True\<rparr>,
            [([''var''], Directory), ([''var'', ''cache''], Directory)])
   \<and> Load sample_deps (sample_config\<lparr>RoomCacheSize := 64\<rparr>) [] =
       Inr (sample_config\<lparr>RoomCacheSize := 64\<rparr>,
            CreateCacheDirs (sample_config\<lparr>RoomCacheSize := 64\<rparr>)
              [([''etc''], Directory), ([''etc'', ''gomuks''], Directory)])
   \<and> Keymap (sample_config\<lparr>RoomCacheSize := 64\<rparr>) = ''default''"
proof -
  have d: "[''etc'', ''gomuks''] = Dir (sample_config\<lparr>RoomCacheSize := 64\<rparr>)
           \<and> ''config.yaml'' = ''config.yaml''"
    by (simp add: sample_config_def NewConfig_def)
  have z: "Keymap (sample_config\<lparr>RoomCacheSize := 64\<rparr>) = ''default''"
    by (simp add: sample_config_def NewConfig_def)
  have 1: "load (fmt_auth sample_deps) ''auth cache'' [''var'', ''cache''] ''auth-cache.yaml''
      \<lparr>NextBatch = ''s72594'', FilterID = ''abc123'', InitialSyncDone = True\<rparr> []
     = Inr (\<lparr>NextBatch = ''s72594'', FilterID = ''abc123'', InitialSyncDone = True\<rparr>,
            [([''var''], Directory), ([''var'', ''cache''], Directory)])"
    by (rule load_absent_keeps_target[OF sample_mkdir_cache sample_absent(1) sample_single(1), THEN conjunct1])
  have 2: "Load sample_deps (sample_config\<lparr>RoomCacheSize := 64\<rparr>) [] =
       Inr (sample_config\<lparr>RoomCacheSize := 64\<rparr>,
            CreateCacheDirs (sample_config\<lparr>RoomCacheSize := 64\<rparr>)
              [([''etc''], Directory), ([''etc'', ''gomuks''], Directory)])"
    using load_absent_keeps_target[OF sample_mkdir_etc sample_absent(2) sample_single(2), THEN conjunct2,
        of "sample_config\<lparr>RoomCacheSize := 64\<rparr>" sample_deps] d
    by simp
  show ?thesis using 1 2 z by blast
qed

section \<open>Loading from fresh directories\<close>

lemma no_regular_Stat: "no_regular disk \<Longrightarrow> Stat disk p = Some n \<Longrightarrow> n = Directory"
  by (auto simp: no_regular_def Stat_def list_all_iff split: if_splits dest!: map_of_SomeD)

lemma no_regular_snoc: "no_regular disk \<Longrightarrow> no_regular (disk @ [(p, Directory)])"
  by (simp add: no_regular_def)

lemma butlast_not_prefix: "p \<noteq> [] \<Longrightarrow> \<not> prefix p (butlast p)"
  by (metis length_append_singleton not_less_eq_eq order_refl prefix_length_le snoc_eq_iff_butlast)

lemma MkdirAll_no_regular:
  "no_regular disk \<Longrightarrow> \<exists>disk'. MkdirAll disk p = Inr disk' \<and> no_regular disk'"
proof (induction disk p rule: MkdirAll.induct)
  case (1 disk p)
  show ?case
  proof (cases "Stat disk p")
    case (Some n)
    then have "n = Directory" using "1.prems" by (rule no_regular_Stat[rotated])
    then show ?thesis using Some "1.prems" by (simp add: MkdirAll.simps[of disk p])
  next
    case None
    then obtain d1 where d1: "MkdirAll disk (butlast p) = Inr d1" "no_regular d1"
      using "1.IH" "1.prems" by blast
    have pne: "p \<noteq> []" using None by (rule Stat_None_nonempty)
    have a: "Stat d1 p = None"
      using MkdirAll_Stat_other[OF d1(1) butlast_not_prefix[OF pne]] None by simp
    have b: "Stat d1 (butlast p) = Some Directory"
      by (rule MkdirAll_Stat_self[OF d1(1)])
    have "Mkdir d1 p = Inr (d1 @ [(p, Directory)])"
      using a b by (simp add: Mkdir_Inr)
    then show ?thesis using None d1 by (simp add: MkdirAll.simps[of disk p] no_regular_snoc)
  qed
qed

lemma ignoring_MkdirAll_other:
  "\<not> prefix q p \<Longrightarrow> Stat (ignoring disk (MkdirAll disk p)) q = Stat disk q"
  by (cases "MkdirAll disk p") (simp_all add: ignoring_def MkdirAll_Stat_other)

lemma ignoring_MkdirAll_no_regular:
  "no_regular disk \<Longrightarrow> no_regular (ignoring disk (MkdirAll disk p))"
  using MkdirAll_no_regular[of disk p] by (auto simp: ignoring_def)

lemma CreateCacheDirs_no_regular: "no_regular disk \<Longrightarrow> no_regular (CreateCacheDirs config disk)"
  by (simp add: CreateCacheDirs_def Let_def ignoring_MkdirAll_no_regular)

lemma CreateCacheDirs_other:
  assumes "\<not> prefix q (CacheDir config)" "\<not> prefix q (DataDir config)"
    "\<not> prefix q (StateDir config)" "\<not> prefix q (MediaDir config)"
  shows "Stat (CreateCacheDirs config disk) q = Stat disk q"
  using assms by (simp add: CreateCacheDirs_def Let_def ignoring_MkdirAll_other)

lemma load_fresh:
  assumes "no_regular disk" "Stat disk (Join dir file) = None" "single_component file"
  shows "load fmt name dir file target disk = Inr (target, ignoring disk (MkdirAll disk dir))"
proof -
  obtain disk1 where m: "MkdirAll disk dir = Inr disk1"
    using MkdirAll_no_regular[OF assms(1), of dir] by auto
  show ?thesis using load_not_exist[OF m assms(2,3)] m by (simp add: ignoring_def)
qed

lemma Load_fresh:
  assumes "no_regular disk" "Stat disk (Join (Dir config) ''config.yaml'') = None"
  shows "Load L config disk =
           Inr (config, CreateCacheDirs config (ignoring disk (MkdirAll disk (Dir config))))"
  using load_fresh[OF assms, of "config_formats L" "''config''" config]
  by (simp add: Load_def seq_def single_component_def)

lemma LoadAuthCache_fresh:
  assumes "no_regular disk" "Stat disk (Join (CacheDir config) ''auth-cache.yaml'') = None"
  shows "LoadAuthCache L config disk = Inr (config, ignoring disk (MkdirAll disk (CacheDir config)))"
  using load_fresh[OF assms, of "fmt_auth L" "''auth cache''" "AuthCache config"]
  by (simp add: LoadAuthCache_def seq_def single_component_def)

lemma LoadPushRules_fresh:
  assumes "no_regular disk" "Stat disk (Join (CacheDir config) ''pushrules.json'') = None"
  shows "LoadPushRules L config disk = Inr (config, ignoring disk (MkdirAll disk (CacheDir config)))"
  using load_fresh[OF assms, of "fmt_pushrules L" "''push rules''" "PushRules config"]
  by (simp add: LoadPushRules_def seq_def single_component_def)

lemma LoadPreferences_fresh:
  assumes "no_regular disk" "Stat disk (Join (CacheDir config) ''preferences.yaml'') = None"
  shows "LoadPreferences L config disk = Inr (config, ignoring disk (MkdirAll disk (CacheDir config)))"
  using load_fresh[OF assms, of "fmt_preferences L" "''user preferences''" "Preferences config"]
  by (simp add: LoadPreferences_def seq_def single_component_def)

lemma Join_not_prefix_self: "single_component f \<Longrightarrow> \<not> prefix (Join dir f) dir"
  by (auto simp: Join_single prefix_def)

lemma Join_prefix_Join:
  "single_component f \<Longrightarrow> single_component g \<Longrightarrow> prefix (Join dir f) (Join dir g) \<longleftrightarrow> f = g"
  by (simp add: Join_single)

text \<open>
  C6. From fresh directories, and with a room cache whose \<^verbatim>\<open>LoadList\<close> returns no error
  on a disk without regular files, \<^verbatim>\<open>LoadAll\<close> on the aggregate that \<^verbatim>\<open>NewConfig\<close> built
  returns without error, and the main settings are the defaults: capacity 32, maximum age
  60, sound on notification, no restriction to verified devices, keymap "default".
\<close>

theorem LoadAll_fresh_defaults:
  assumes fresh: "fresh_directories configDir dataDir cacheDir disk"
    and rooms: "\<And>uid rc d. no_regular d \<Longrightarrow> \<exists>rc' d'. LoadList L uid rc d = Inr (rc', d')"
  shows "\<exists>config' disk'.
           LoadAll L (NewConfig configDir dataDir cacheDir downloadDir) disk = Inr (config', disk')
         \<and> RoomCacheSize config' = 32 \<and> RoomCacheAge config' = 60
         \<and> NotifySound config' = True \<and> SendToVerifiedOnly config' = False
         \<and> Keymap config' = ''default''"
proof -
  define c0 :: "('a, 'b) Config" where "c0 = NewConfig configDir dataDir cacheDir downloadDir"
  have dirs: "Dir c0 = configDir" "DataDir c0 = dataDir" "CacheDir c0 = cacheDir"
    "StateDir c0 = Join cacheDir ''state''" "MediaDir c0 = Join cacheDir ''media''"
    by (simp_all add: c0_def NewConfig_def)
  have nr: "no_regular disk" and cfg: "Stat disk (Join configDir ''config.yaml'') = None"
    using fresh by (simp_all add: fresh_directories_def)
  have files: "Stat disk (Join cacheDir f) = None \<and> \<not> prefix (Join cacheDir f) configDir
      \<and> \<not> prefix (Join cacheDir f) dataDir"
    if "f \<in> {''auth-cache.yaml'', ''pushrules.json'', ''preferences.yaml''}" for f
    using fresh that by (auto simp: fresh_directories_def)
  define d1 where "d1 = ignoring disk (MkdirAll disk configDir)"
  define d2 where "d2 = CreateCacheDirs c0 d1"
  have L1: "Load L c0 disk = Inr (c0, d2)"
    using Load_fresh[of disk c0 L] nr cfg by (simp add: dirs d1_def d2_def)
  have nr2: "no_regular d2"
    unfolding d2_def d1_def
    by (intro CreateCacheDirs_no_regular ignoring_MkdirAll_no_regular nr)
  have sc: "single_component f"
    if "f \<in> {''auth-cache.yaml'', ''pushrules.json'', ''preferences.yaml'', ''state'', ''media''}" for f
    using that by (auto simp: single_component_def)
  have abs2: "Stat d2 (Join cacheDir f) = None"
    if "f \<in> {''auth-cache.yaml'', ''pushrules.json'', ''preferences.yaml''}" for f
  proof -
    have ne: "f \<noteq> ''state''" "f \<noteq> ''media''" using that by auto
    have "Stat d2 (Join cacheDir f) = Stat d1 (Join cacheDir f)"
      unfolding d2_def using files[OF that] ne
      using that by (intro CreateCacheDirs_other) (auto simp: dirs Join_not_prefix_self Join_prefix_Join sc)
    also have "\<dots> = Stat disk (Join cacheDir f)"
      unfolding d1_def using files[OF that] by (intro ignoring_MkdirAll_other) simp
    finally show ?thesis using files[OF that] by simp
  qed
  define c2 where "c2 = c0\<lparr>Rooms := Some (NewRoomCache L (RoomListPath c0) (StateDir c0)
                            (RoomCacheSize c0) (RoomCacheAge c0))\<rparr>"
  have c2dir: "CacheDir c2 = cacheDir" by (simp add: c2_def dirs)
  define d3 where "d3 = ignoring d2 (MkdirAll d2 cacheDir)"
  define d4 where "d4 = ignoring d3 (MkdirAll d3 cacheDir)"
  define d5 where "d5 = ignoring d4 (MkdirAll d4 cacheDir)"
  have nr3: "no_regular d3" unfolding d3_def by (rule ignoring_MkdirAll_no_regular[OF nr2])
  have nr4: "no_regular d4" unfolding d4_def by (rule ignoring_MkdirAll_no_regular[OF nr3])
  have nr5: "no_regular d5" unfolding d5_def by (rule ignoring_MkdirAll_no_regular[OF nr4])
  have abs3: "Stat d3 (Join cacheDir f) = None"
    if "f \<in> {''auth-cache.yaml'', ''pushrules.json'', ''preferences.yaml''}" for f
    unfolding d3_def using abs2[OF that] that by (auto simp: ignoring_MkdirAll_other Join_not_prefix_self sc)
  have abs4: "Stat d4 (Join cacheDir f) = None"
    if "f \<in> {''auth-cache.yaml'', ''pushrules.json'', ''preferences.yaml''}" for f
    unfolding d4_def using abs3[OF that] that by (auto simp: ignoring_MkdirAll_other Join_not_prefix_self sc)
  have L3: "LoadAuthCache L c2 d2 = Inr (c2, d3)"
    using LoadAuthCache_fresh[of d2 c2 L] nr2 abs2[of "''auth-cache.yaml''"]
    by (simp add: c2dir d3_def)
  have L4: "LoadPushRules L c2 d3 = Inr (c2, d4)"
    using LoadPushRules_fresh[of d3 c2 L] nr3 abs3[of "''pushrules.json''"]
    by (simp add: c2dir d4_def)
  have L5: "LoadPreferences L c2 d4 = Inr (c2, d5)"
    using LoadPreferences_fresh[of d4 c2 L] nr4 abs4[of "''preferences.yaml''"]
    by (simp add: c2dir d5_def)
  obtain rc where rc: "Rooms c2 = Some rc" by (simp add: c2_def)
  obtain rc' d6 where d6: "LoadList L (GetUserID c2) rc d5 = Inr (rc', d6)"
    using rooms[OF nr5] by blast
  have "LoadAll L c0 disk = Inr (c2\<lparr>Rooms := Some rc'\<rparr>, d6)"
    unfolding LoadAll_def L1 by (simp add: seq_def Let_def c2_def[symmetric] L3 L4 L5 rc d6)
  moreover have "RoomCacheSize (c2\<lparr>Rooms := Some rc'\<rparr>) = 32"
    "RoomCacheAge (c2\<lparr>Rooms := Some rc'\<rparr>) = 60"
    "NotifySound (c2\<lparr>Rooms := Some rc'\<rparr>) = True"
    "SendToVerifiedOnly (c2\<lparr>Rooms := Some rc'\<rparr>) = False"
    "Keymap (c2\<lparr>Rooms := Some rc'\<rparr>) = ''default''"
    by (simp_all add: c2_def c0_def NewConfig_def)
  ultimately show ?thesis unfolding c0_def by blast
qed


theorem LoadAll_fresh_defaults_witness:
  "fresh_directories [''etc'', ''gomuks''] [''var'', ''data''] [''var'', ''cache''] []
   \<and> (\<exists>config' disk'. LoadAll sample_deps sample_config [] = Inr (config', disk')
         \<and> RoomCacheSize config' = 32 \<and> RoomCacheAge config' = 60
         \<and> NotifySound config' = True \<and> SendToVerifiedOnly config' = False
         \<and> Keymap config' = ''default'')"
proof -
  have f: "fresh_directories [''etc'', ''gomuks''] [''var'', ''data''] [''var'', ''cache''] []"
    by (simp add: fresh_directories_def no_regular_def Stat_def Join_single single_component_def)
  have r: "\<exists>rc' d'. LoadList sample_deps uid rc d = Inr (rc', d')" for uid rc d
    by (intro exI[of _ rc] exI[of _ d]) (simp add: sample_deps_def)
  show ?thesis
    using LoadAll_fresh_defaults[OF f, of sample_deps "[''home'', ''dl'']"] r f
    unfolding sample_config_def by blast
qed

section \<open>What DeleteSession leaves behind\<close>

lemma DeleteSession_config:
  "fst (DeleteSession L config disk) =
     config\<lparr>AuthCache := (AuthCache config)\<lparr>NextBatch := [], InitialSyncDone := False\<rparr>,
            AccessToken := [], DeviceID := [],
            Rooms := Some (NewRoomCache L (RoomListPath config) (StateDir config)
                             (RoomCacheSize config) (RoomCacheAge config)),
            PushRules := None, nosave := False\<rparr>"
  by (simp add: DeleteSession_def Let_def Clear_def)

text \<open>
  C3, as amended. \<^verbatim>\<open>DeleteSession\<close> returns the aggregate it was given with these fields
  changed and no other: the sync token and the initial-sync flag of the auth cache, the
  access token and the device id are cleared, the room cache is a new one built from the
  aggregate's current room-list path, state directory and tunables, the push ruleset is
  nil, and \<^verbatim>\<open>nosave\<close> is off. The user id, the homeserver, the filter id, the preferences,
  the keymap, the tunables and the paths keep their values.
\<close>

theorem DeleteSession_effect:
  "fst (DeleteSession L config disk) =
     config\<lparr>AuthCache := (AuthCache config)\<lparr>NextBatch := [], InitialSyncDone := False\<rparr>,
            AccessToken := [], DeviceID := [],
            Rooms := Some (NewRoomCache L (RoomListPath config) (StateDir config)
                             (RoomCacheSize config) (RoomCacheAge config)),
            PushRules := None, nosave := False\<rparr>"
  by (rule DeleteSession_config)

text \<open>
  C3 as the specification states it fails. After a login, a sync and a change of one
  preference, \<^verbatim>\<open>DeleteSession\<close> leaves the filter id in the auth cache, which is
  therefore not empty, and leaves the user id, the homeserver and the preference as they
  were: the aggregate is not the one \<^verbatim>\<open>NewConfig\<close> builds from the same roots, even with
  the new room cache granted.
\<close>

theorem DeleteSession_not_fresh_counterexample:
  "AuthCache (fst (DeleteSession sample_deps logged_in_config sample_disk)) \<noteq> zero_AuthCache
   \<and> FilterID (AuthCache (fst (DeleteSession sample_deps logged_in_config sample_disk))) = ''abc123''
   \<and> UserID (fst (DeleteSession sample_deps logged_in_config sample_disk)) = ''@u:example.org''
   \<and> HS (fst (DeleteSession sample_deps logged_in_config sample_disk)) = ''https://example.org''
   \<and> HideUserList (Preferences (fst (DeleteSession sample_deps logged_in_config sample_disk))) = True
   \<and> fst (DeleteSession sample_deps logged_in_config sample_disk)
     \<noteq> (NewConfig [''etc'', ''gomuks''] [''var'', ''data''] [''var'', ''cache''] [''home'', ''dl''])
          \<lparr>Rooms := Rooms (fst (DeleteSession sample_deps logged_in_config sample_disk))\<rparr>"
proof -
  define c where "c = fst (DeleteSession sample_deps logged_in_config sample_disk)"
  have f: "FilterID (AuthCache c) = ''abc123''" "UserID c = ''@u:example.org''"
    "HS c = ''https://example.org''" "HideUserList (Preferences c) = True"
    unfolding c_def by (simp_all add: DeleteSession_config logged_in_config_def)
  have z: "FilterID zero_AuthCache = []"
    by (simp add: zero_AuthCache_def)
  have n: "FilterID (AuthCache
      ((NewConfig [''etc'', ''gomuks''] [''var'', ''data''] [''var'', ''cache''] [''home'', ''dl''])
          \<lparr>Rooms := Rooms c\<rparr>)) = []"
    by (simp add: NewConfig_def zero_AuthCache_def)
  have 1: "AuthCache c \<noteq> zero_AuthCache"
    using f(1) z by auto
  have 2: "c \<noteq> (NewConfig [''etc'', ''gomuks''] [''var'', ''data''] [''var'', ''cache''] [''home'', ''dl''])
          \<lparr>Rooms := Rooms c\<rparr>"
  proof
    assume e: "c = (NewConfig [''etc'', ''gomuks''] [''var'', ''data''] [''var'', ''cache''] [''home'', ''dl''])
          \<lparr>Rooms := Rooms c\<rparr>"
    have "FilterID (AuthCache c) = []"
      by (subst e) (rule n)
    then show False using f(1) by simp
  qed
  show ?thesis using f 1 2 unfolding c_def by blast
qed

section \<open>DeleteSession, twice\<close>

lemma map_of_filter_key:
  "map_of (filter (\<lambda>(k, v). P k) xs) k = (if P k then map_of xs k else None)"
  by (induction xs) auto

lemma Stat_RemoveAll:
  "Stat (RemoveAll disk p) q = (if q \<noteq> [] \<and> prefix p q then None else Stat disk q)"
  using map_of_filter_key[of "\<lambda>q. \<not> prefix p q" disk q]
  by (simp add: Stat_def RemoveAll_def)

lemma Stat_delete:
  "Stat (AList.delete p disk) q = (if q \<noteq> [] \<and> q = p then None else Stat disk q)"
  by (simp add: Stat_def delete_conv')

lemma has_children_iff:
  "has_children disk p \<longleftrightarrow> (\<exists>q. strict_prefix p q \<and> Stat disk q \<noteq> None)"
proof
  assume "has_children disk p"
  then obtain q n where qn: "(q, n) \<in> set disk" "strict_prefix p q"
    by (auto simp: has_children_def list_ex_iff)
  have "q \<in> fst ` set disk" using qn(1) by force
  then have "map_of disk q \<noteq> None" by (simp add: map_of_eq_None_iff)
  then have "Stat disk q \<noteq> None" by (simp add: Stat_def)
  then show "\<exists>q. strict_prefix p q \<and> Stat disk q \<noteq> None"
    using qn(2) by (intro exI[of _ q]) simp
next
  assume "\<exists>q. strict_prefix p q \<and> Stat disk q \<noteq> None"
  then obtain q where q: "strict_prefix p q" "Stat disk q \<noteq> None" by blast
  have "q \<noteq> []" using q(1) by (cases q) simp_all
  then obtain n where "map_of disk q = Some n" using q(2) by (auto simp: Stat_def)
  then have "(q, n) \<in> set disk" by (rule map_of_SomeD)
  then show "has_children disk p"
    unfolding has_children_def list_ex_iff using q(1) by (intro bexI[of _ "(q, n)"]) simp_all
qed

lemma Remove_cases:
  "Remove disk p = disk \<or> (p \<noteq> [] \<and> Remove disk p = AList.delete p disk)"
  by (auto simp: Remove_def split: option.splits node.splits)

lemma Stat_Remove_None: "Stat disk q = None \<Longrightarrow> Stat (Remove disk p) q = None"
  using Remove_cases[of disk p] by (auto simp: Stat_delete)

lemma Stat_RemoveAll_None: "Stat disk q = None \<Longrightarrow> Stat (RemoveAll disk p) q = None"
  by (simp add: Stat_RemoveAll)

lemma Stat_root [simp]: "Stat disk [] = Some Directory"
  by (simp add: Stat_def)

lemma is_regular_root [simp]: "\<not> is_regular disk []"
  by (simp add: is_regular_def)

lemma is_regular_RemoveAll:
  "is_regular (RemoveAll disk p) q \<longleftrightarrow> is_regular disk q \<and> \<not> prefix p q"
  by (cases "q = []") (simp_all add: is_regular_def Stat_RemoveAll)

lemma is_regular_Remove:
  "is_regular (Remove disk p) q \<longleftrightarrow> is_regular disk q \<and> q \<noteq> p"
proof (cases "q = p")
  case False
  then show ?thesis using Remove_cases[of disk p] by (auto simp: is_regular_def Stat_delete)
next
  case True
  show ?thesis
  proof (cases "is_regular disk p")
    case False
    then show ?thesis using True Remove_cases[of disk p]
      by (auto simp: is_regular_def Stat_delete)
  next
    case r: True
    then have "p \<noteq> []" by auto
    then have "Remove disk p = AList.delete p disk"
      using r by (auto simp: Remove_def is_regular_def Stat_def split: option.splits node.splits)
    then show ?thesis using True \<open>p \<noteq> []\<close> by (simp add: is_regular_def Stat_delete)
  qed
qed


lemma wf_fsD: "wf_fs disk \<Longrightarrow> (p, n) \<in> set disk \<Longrightarrow> Stat disk (butlast p) = Some Directory"
  by (auto simp: wf_fs_def list_all_iff)

lemma wf_fsI:
  "(\<And>p n. (p, n) \<in> set disk \<Longrightarrow> Stat disk (butlast p) = Some Directory) \<Longrightarrow> wf_fs disk"
  by (auto simp: wf_fs_def list_all_iff)

lemma wf_fs_parent:
  assumes "wf_fs disk" "Stat disk p \<noteq> None"
  shows "Stat disk (butlast p) = Some Directory"
proof (cases "p = []")
  case True
  then show ?thesis by simp
next
  case False
  then obtain n where "map_of disk p = Some n" using assms(2) by (auto simp: Stat_def)
  then have "(p, n) \<in> set disk" by (rule map_of_SomeD)
  then show ?thesis using assms(1) by (rule wf_fsD[rotated])
qed

lemma wf_fs_prefix:
  "wf_fs disk \<Longrightarrow> Stat disk p \<noteq> None \<Longrightarrow> strict_prefix q p \<Longrightarrow> Stat disk q = Some Directory"
proof (induction p rule: rev_induct)
  case Nil
  then show ?case by simp
next
  case (snoc x xs)
  have par: "Stat disk xs = Some Directory"
    using wf_fs_parent[OF snoc.prems(1,2)] by simp
  have "prefix q xs" using snoc.prems(3) by (auto simp: strict_prefix_def)
  then show ?case
  proof (cases "q = xs")
    case True
    then show ?thesis using par by simp
  next
    case False
    then have "strict_prefix q xs" using \<open>prefix q xs\<close> by (simp add: strict_prefix_def)
    then show ?thesis using snoc.IH[OF snoc.prems(1)] par by simp
  qed
qed

lemma wf_fs_RemoveAll: "wf_fs disk \<Longrightarrow> wf_fs (RemoveAll disk p)"
proof (rule wf_fsI)
  fix q n
  assume wf: "wf_fs disk" and "(q, n) \<in> set (RemoveAll disk p)"
  then have mem: "(q, n) \<in> set disk" and np: "\<not> prefix p q"
    by (auto simp: RemoveAll_def)
  have "\<not> prefix p (butlast q)"
    using np prefixeq_butlast[of q] by (auto dest: prefix_order.trans)
  then show "Stat (RemoveAll disk p) (butlast q) = Some Directory"
    using wf_fsD[OF wf mem] by (simp add: Stat_RemoveAll)
qed

lemma set_delete: "set (AList.delete p disk) = {(q, n). (q, n) \<in> set disk \<and> q \<noteq> p}"
  by (auto simp: AList.delete_eq)

lemma wf_fs_Remove:
  assumes wf: "wf_fs disk"
  shows "wf_fs (Remove disk p)"
proof (cases "Remove disk p = disk")
  case True
  then show ?thesis using wf by simp
next
  case False
  then have pne: "p \<noteq> []" and del: "Remove disk p = AList.delete p disk"
    using Remove_cases[of disk p] by auto
  have nokids: "\<not> strict_prefix p q" if "(q, n) \<in> set disk" for q n
  proof
    assume sp: "strict_prefix p q"
    have q: "Stat disk q \<noteq> None"
    proof -
      have "q \<noteq> []" using sp by (cases q) simp_all
      moreover have "q \<in> fst ` set disk" using that by force
      ultimately show ?thesis by (simp add: Stat_def map_of_eq_None_iff)
    qed
    have hc: "has_children disk p" using sp q by (auto simp: has_children_iff)
    have dirp: "Stat disk p = Some Directory" by (rule wf_fs_prefix[OF wf q sp])
    then have "map_of disk p = Some Directory" using pne by (simp add: Stat_def)
    then have "Remove disk p = disk" using hc pne by (simp add: Remove_def)
    then show False using False by simp
  qed
  show ?thesis unfolding del
  proof (rule wf_fsI)
    fix q n
    assume "(q, n) \<in> set (AList.delete p disk)"
    then have mem: "(q, n) \<in> set disk" and "q \<noteq> p" by (auto simp: set_delete)
    have "butlast q \<noteq> p"
    proof
      assume e: "butlast q = p"
      then have "q \<noteq> []" using pne by auto
      then have "strict_prefix p q"
        using e by (metis append_butlast_last_id strict_prefixI')
      then show False using nokids[OF mem] by simp
    qed
    then show "Stat (AList.delete p disk) (butlast q) = Some Directory"
      using wf_fsD[OF wf mem] by (simp add: Stat_delete)
  qed
qed

lemma wf_fs_MkdirAll: "wf_fs disk \<Longrightarrow> MkdirAll disk p = Inr disk' \<Longrightarrow> wf_fs disk'"
proof (induction disk p arbitrary: disk' rule: MkdirAll.induct)
  case (1 disk p)
  show ?case
  proof (cases "Stat disk p")
    case (Some n)
    then show ?thesis using "1.prems" by (cases n) (auto simp: MkdirAll.simps[of disk p])
  next
    case None
    then obtain d1 where d1: "MkdirAll disk (butlast p) = Inr d1" "Mkdir d1 p = Inr disk'"
      using "1.prems" by (auto simp: MkdirAll.simps[of disk p] split: sum.splits)
    have wf1: "wf_fs d1" by (rule "1.IH"[OF None "1.prems"(1) d1(1)])
    have m: "Stat d1 p = None" "Stat d1 (butlast p) = Some Directory" "disk' = d1 @ [(p, Directory)]"
      using d1(2) by (auto simp: Mkdir_Inr)
    have pne: "p \<noteq> []" using m(1) by (rule Stat_None_nonempty)
    show ?thesis unfolding m(3)
    proof (rule wf_fsI)
      fix q n
      assume "(q, n) \<in> set (d1 @ [(p, Directory)])"
      then have "Stat d1 (butlast q) = Some Directory"
        using wf_fsD[OF wf1] m(2) by auto
      then show "Stat (d1 @ [(p, Directory)]) (butlast q) = Some Directory"
        using pne by (simp add: Stat_snoc)
    qed
  qed
qed

lemma wf_fs_ignoring: "wf_fs disk \<Longrightarrow> wf_fs (ignoring disk (MkdirAll disk p))"
  by (cases "MkdirAll disk p") (auto simp: ignoring_def intro: wf_fs_MkdirAll)


lemma creatable_iff: "creatable disk p \<longleftrightarrow> (\<forall>q. prefix q p \<longrightarrow> \<not> is_regular disk q)"
  by (auto simp: creatable_def list_all_iff)

lemma is_regular_MkdirAll:
  assumes "MkdirAll disk p = Inr disk'"
  shows "is_regular disk' q = is_regular disk q"
proof -
  have "Stat disk' q = Stat disk q \<or> (Stat disk q = None \<and> Stat disk' q = Some Directory)"
    using MkdirAll_Stat[OF assms] by blast
  then show ?thesis by (auto simp: is_regular_def)
qed

lemma is_regular_ignoring: "is_regular (ignoring disk (MkdirAll disk p)) q = is_regular disk q"
  by (cases "MkdirAll disk p") (simp_all add: ignoring_def is_regular_MkdirAll)

lemma creatable_ignoring: "creatable (ignoring disk (MkdirAll disk p)) r = creatable disk r"
  by (simp add: creatable_iff is_regular_ignoring)

lemma creatable_MkdirAll: "creatable disk p \<Longrightarrow> \<exists>disk'. MkdirAll disk p = Inr disk'"
proof (induction disk p rule: MkdirAll.induct)
  case (1 disk p)
  show ?case
  proof (cases "Stat disk p")
    case (Some n)
    have "\<not> is_regular disk p" using "1.prems" by (simp add: creatable_iff)
    then have "n = Directory" using Some by (cases n) (simp_all add: is_regular_def)
    then show ?thesis using Some by (simp add: MkdirAll.simps[of disk p])
  next
    case None
    have "creatable disk (butlast p)"
      using "1.prems" prefixeq_butlast[of p]
      by (auto simp: creatable_iff dest: prefix_order.trans)
    then obtain d1 where d1: "MkdirAll disk (butlast p) = Inr d1"
      using "1.IH"[OF None] by blast
    have pne: "p \<noteq> []" using None by (rule Stat_None_nonempty)
    have a: "Stat d1 p = None"
      using MkdirAll_Stat_other[OF d1 butlast_not_prefix[OF pne]] None by simp
    have b: "Stat d1 (butlast p) = Some Directory"
      by (rule MkdirAll_Stat_self[OF d1])
    have "Mkdir d1 p = Inr (d1 @ [(p, Directory)])"
      using a b by (simp add: Mkdir_Inr)
    then show ?thesis using None d1 by (simp add: MkdirAll.simps[of disk p])
  qed
qed

lemma wf_fs_prefix_eq:
  "wf_fs disk \<Longrightarrow> Stat disk p = Some Directory \<Longrightarrow> prefix q p \<Longrightarrow> Stat disk q = Some Directory"
  using wf_fs_prefix[of disk p q] by (cases "q = p") (auto simp: strict_prefix_def)

lemma MkdirAll_creatable:
  assumes "wf_fs disk" "MkdirAll disk p = Inr disk'"
  shows "creatable disk p"
  unfolding creatable_iff
proof (intro allI impI)
  fix q
  assume "prefix q p"
  have "wf_fs disk'" by (rule wf_fs_MkdirAll[OF assms])
  then have "Stat disk' q = Some Directory"
    using MkdirAll_Stat_self[OF assms(2)] \<open>prefix q p\<close> by (rule wf_fs_prefix_eq)
  then have "\<not> is_regular disk' q" by (simp add: is_regular_def)
  then show "\<not> is_regular disk q" by (simp add: is_regular_MkdirAll[OF assms(2)])
qed

lemma Stat_ignoring_MkdirAll:
  assumes "wf_fs disk"
  shows "Stat (ignoring disk (MkdirAll disk p)) q =
           (if creatable disk p \<and> prefix q p \<and> Stat disk q = None then Some Directory
            else Stat disk q)"
proof (cases "MkdirAll disk p")
  case (Inl e)
  then have "\<not> creatable disk p" using creatable_MkdirAll[of disk p] by auto
  then show ?thesis using Inl by (simp add: ignoring_def)
next
  case (Inr disk')
  have c: "creatable disk p" by (rule MkdirAll_creatable[OF assms Inr])
  have wf': "wf_fs disk'" by (rule wf_fs_MkdirAll[OF assms Inr])
  have self: "Stat disk' p = Some Directory" by (rule MkdirAll_Stat_self[OF Inr])
  have alt: "Stat disk' q = Stat disk q \<or> (Stat disk q = None \<and> prefix q p \<and> Stat disk' q = Some Directory)"
    using MkdirAll_Stat[OF Inr] by blast
  show ?thesis
  proof (cases "prefix q p \<and> Stat disk q = None")
    case True
    then have "Stat disk' q = Some Directory"
      using wf_fs_prefix_eq[OF wf' self] by simp
    then show ?thesis using True c Inr by (simp add: ignoring_def)
  next
    case False
    then have "Stat disk' q = Stat disk q" using alt by auto
    then show ?thesis using False Inr by (auto simp: ignoring_def)
  qed
qed

lemma Stat_CreateCacheDirs:
  assumes "wf_fs disk"
  shows "Stat (CreateCacheDirs config disk) q =
           (if Stat disk q \<noteq> None then Stat disk q
            else if (creatable disk (CacheDir config) \<and> prefix q (CacheDir config))
                  \<or> (creatable disk (DataDir config) \<and> prefix q (DataDir config))
                  \<or> (creatable disk (StateDir config) \<and> prefix q (StateDir config))
                  \<or> (creatable disk (MediaDir config) \<and> prefix q (MediaDir config))
                 then Some Directory else None)"
proof -
  define d1 where "d1 = ignoring disk (MkdirAll disk (CacheDir config))"
  define d2 where "d2 = ignoring d1 (MkdirAll d1 (DataDir config))"
  define d3 where "d3 = ignoring d2 (MkdirAll d2 (StateDir config))"
  define d4 where "d4 = ignoring d3 (MkdirAll d3 (MediaDir config))"
  have wf: "wf_fs d1" "wf_fs d2" "wf_fs d3"
    unfolding d1_def d2_def d3_def by (intro wf_fs_ignoring assms)+
  have cr: "creatable d1 r = creatable disk r" "creatable d2 r = creatable disk r"
    "creatable d3 r = creatable disk r" for r
    unfolding d1_def d2_def d3_def by (simp_all add: creatable_ignoring)
  have s1: "Stat d1 q = (if creatable disk (CacheDir config) \<and> prefix q (CacheDir config)
                \<and> Stat disk q = None then Some Directory else Stat disk q)"
    unfolding d1_def by (rule Stat_ignoring_MkdirAll[OF assms])
  have s2: "Stat d2 q = (if creatable disk (DataDir config) \<and> prefix q (DataDir config)
                \<and> Stat d1 q = None then Some Directory else Stat d1 q)"
    unfolding d2_def using Stat_ignoring_MkdirAll[OF wf(1)] by (simp add: cr)
  have s3: "Stat d3 q = (if creatable disk (StateDir config) \<and> prefix q (StateDir config)
                \<and> Stat d2 q = None then Some Directory else Stat d2 q)"
    unfolding d3_def using Stat_ignoring_MkdirAll[OF wf(2)] by (simp add: cr)
  have s4: "Stat d4 q = (if creatable disk (MediaDir config) \<and> prefix q (MediaDir config)
                \<and> Stat d3 q = None then Some Directory else Stat d3 q)"
    unfolding d4_def using Stat_ignoring_MkdirAll[OF wf(3)] by (simp add: cr)
  have e: "CreateCacheDirs config disk = d4"
    by (simp add: CreateCacheDirs_def Let_def d1_def d2_def d3_def d4_def)
  show ?thesis
  proof (cases "Stat disk q")
    case (Some n)
    then show ?thesis unfolding e by (simp add: s4 s3 s2 s1)
  next
    case None
    then show ?thesis unfolding e by (simp add: s4 s3 s2 s1)
  qed
qed

lemma wf_fs_CreateCacheDirs: "wf_fs disk \<Longrightarrow> wf_fs (CreateCacheDirs config disk)"
  by (simp add: CreateCacheDirs_def Let_def wf_fs_ignoring)

lemma is_regular_CreateCacheDirs: "is_regular (CreateCacheDirs config disk) q = is_regular disk q"
  by (simp add: CreateCacheDirs_def Let_def is_regular_ignoring)


lemma snd_Clear:
  "snd (Clear config disk) =
     RemoveAll (RemoveAll (RemoveAll (Remove (Remove disk (HistoryPath config)) (RoomListPath config))
       (StateDir config)) (MediaDir config)) (CacheDir config)"
  by (simp add: Clear_def Let_def)

lemma snd_DeleteSession:
  "snd (DeleteSession L config disk) =
     CreateCacheDirs config (snd (Clear config (ClearData config disk)))"
  by (simp add: DeleteSession_def Let_def Clear_def ClearData_def CreateCacheDirs_def)

lemma wf_fs_removal: "wf_fs disk \<Longrightarrow> wf_fs (snd (Clear config (ClearData config disk)))"
  by (simp add: snd_Clear ClearData_def wf_fs_RemoveAll wf_fs_Remove)

lemma is_regular_removal:
  "is_regular (snd (Clear config (ClearData config disk))) q \<longleftrightarrow>
     is_regular disk q \<and> \<not> prefix (DataDir config) q \<and> q \<noteq> HistoryPath config
     \<and> q \<noteq> RoomListPath config \<and> \<not> prefix (StateDir config) q
     \<and> \<not> prefix (MediaDir config) q \<and> \<not> prefix (CacheDir config) q"
  by (simp add: snd_Clear ClearData_def is_regular_RemoveAll is_regular_Remove conj_commute conj_left_commute)

lemma Stat_removal_None:
  assumes "X \<in> {CacheDir config, DataDir config, StateDir config, MediaDir config}" "X \<noteq> []"
  shows "Stat (snd (Clear config (ClearData config disk))) X = None"
  using assms by (auto simp: snd_Clear ClearData_def Stat_RemoveAll Stat_Remove_None)

lemma snd_DeleteSession_again:
  "snd (DeleteSession L (fst (DeleteSession L config disk)) disk') = snd (DeleteSession L config disk')"
  by (simp add: snd_DeleteSession DeleteSession_config snd_Clear ClearData_def CreateCacheDirs_def)

lemma fst_DeleteSession_again:
  "fst (DeleteSession L (fst (DeleteSession L config disk)) disk') = fst (DeleteSession L config disk)"
  by (simp add: DeleteSession_config)

lemma DeleteSession_dirs:
  assumes wf: "wf_fs disk"
    and X: "X \<in> {CacheDir config, DataDir config, StateDir config, MediaDir config}"
  shows "Stat (snd (DeleteSession L config (snd (DeleteSession L config disk)))) X
           = Stat (snd (DeleteSession L config disk)) X"
    and "creatable (snd (DeleteSession L config disk)) X
           \<Longrightarrow> Stat (snd (DeleteSession L config disk)) X = Some Directory"
proof -
  define e where "e = snd (Clear config (ClearData config disk))"
  define d1 where "d1 = CreateCacheDirs config e"
  define e' where "e' = snd (Clear config (ClearData config d1))"
  define d2 where "d2 = CreateCacheDirs config e'"
  have d1: "snd (DeleteSession L config disk) = d1"
    by (simp add: snd_DeleteSession d1_def e_def)
  have d2: "snd (DeleteSession L config d1) = d2"
    by (simp add: snd_DeleteSession d2_def e'_def)
  have wfe: "wf_fs e" unfolding e_def by (rule wf_fs_removal[OF wf])
  have wfd1: "wf_fs d1" unfolding d1_def by (rule wf_fs_CreateCacheDirs[OF wfe])
  have wfe': "wf_fs e'" unfolding e'_def by (rule wf_fs_removal[OF wfd1])
  have reg: "is_regular e' q = is_regular e q" for q
  proof -
    have "is_regular e' q \<longleftrightarrow> is_regular d1 q \<and> \<not> prefix (DataDir config) q \<and> q \<noteq> HistoryPath config
       \<and> q \<noteq> RoomListPath config \<and> \<not> prefix (StateDir config) q
       \<and> \<not> prefix (MediaDir config) q \<and> \<not> prefix (CacheDir config) q"
      unfolding e'_def by (rule is_regular_removal)
    moreover have "is_regular d1 q = is_regular e q"
      unfolding d1_def by (rule is_regular_CreateCacheDirs)
    moreover have "is_regular e q \<longleftrightarrow> is_regular disk q \<and> \<not> prefix (DataDir config) q \<and> q \<noteq> HistoryPath config
       \<and> q \<noteq> RoomListPath config \<and> \<not> prefix (StateDir config) q
       \<and> \<not> prefix (MediaDir config) q \<and> \<not> prefix (CacheDir config) q"
      unfolding e_def by (rule is_regular_removal)
    ultimately show ?thesis by blast
  qed
  have cr: "creatable e' r = creatable e r" for r
    by (simp add: creatable_iff reg)
  have cr1: "creatable d1 r = creatable e r" for r
    by (simp add: creatable_iff d1_def is_regular_CreateCacheDirs)
  have s1: "Stat d1 X = (if Stat e X \<noteq> None then Stat e X
            else if (creatable e (CacheDir config) \<and> prefix X (CacheDir config))
                  \<or> (creatable e (DataDir config) \<and> prefix X (DataDir config))
                  \<or> (creatable e (StateDir config) \<and> prefix X (StateDir config))
                  \<or> (creatable e (MediaDir config) \<and> prefix X (MediaDir config))
                 then Some Directory else None)"
    unfolding d1_def by (rule Stat_CreateCacheDirs[OF wfe])
  have s2: "Stat d2 X = (if Stat e' X \<noteq> None then Stat e' X
            else if (creatable e (CacheDir config) \<and> prefix X (CacheDir config))
                  \<or> (creatable e (DataDir config) \<and> prefix X (DataDir config))
                  \<or> (creatable e (StateDir config) \<and> prefix X (StateDir config))
                  \<or> (creatable e (MediaDir config) \<and> prefix X (MediaDir config))
                 then Some Directory else None)"
    unfolding d2_def using Stat_CreateCacheDirs[OF wfe', of config X] by (simp add: cr)
  have ee: "Stat e' X = Stat e X"
  proof (cases "X = []")
    case True
    then show ?thesis by simp
  next
    case False
    then show ?thesis
      unfolding e_def e'_def using Stat_removal_None[OF X False] by simp
  qed
  show "Stat (snd (DeleteSession L config (snd (DeleteSession L config disk)))) X
           = Stat (snd (DeleteSession L config disk)) X"
    unfolding d1 d2 s1 s2 ee ..
  show "Stat (snd (DeleteSession L config disk)) X = Some Directory"
    if c: "creatable (snd (DeleteSession L config disk)) X"
  proof (cases "X = []")
    case True
    then show ?thesis by simp
  next
    case False
    have none: "Stat e X = None" unfolding e_def by (rule Stat_removal_None[OF X False])
    have "creatable e X" using c by (simp add: d1 cr1)
    then show ?thesis unfolding d1 s1 using none X by auto
  qed
qed

lemma Stat_Remove_other: "q \<noteq> p \<Longrightarrow> Stat (Remove disk p) q = Stat disk q"
  using Remove_cases[of disk p] by (auto simp: Stat_delete)

lemma in_cache_dirs_iff:
  "in_cache_dirs config p \<longleftrightarrow> prefix (CacheDir config) p \<or> prefix (DataDir config) p
     \<or> prefix (StateDir config) p \<or> prefix (MediaDir config) p"
  by (simp add: in_cache_dirs_def)

lemma Stat_removal:
  assumes "in_cache_dirs config (HistoryPath config)" "in_cache_dirs config (RoomListPath config)"
  shows "Stat (snd (Clear config (ClearData config disk))) q =
           (if q \<noteq> [] \<and> in_cache_dirs config q then None else Stat disk q)"
proof -
  define a where "a = RemoveAll disk (DataDir config)"
  define b where "b = Remove (Remove a (HistoryPath config)) (RoomListPath config)"
  have e: "snd (Clear config (ClearData config disk)) =
      RemoveAll (RemoveAll (RemoveAll b (StateDir config)) (MediaDir config)) (CacheDir config)"
    by (simp add: snd_Clear ClearData_def a_def b_def)
  have sa: "Stat a q = (if q \<noteq> [] \<and> prefix (DataDir config) q then None else Stat disk q)"
    unfolding a_def by (rule Stat_RemoveAll)
  show ?thesis
  proof (cases "q \<noteq> [] \<and> (prefix (CacheDir config) q \<or> prefix (StateDir config) q
                  \<or> prefix (MediaDir config) q)")
    case True
    then show ?thesis unfolding e by (auto simp: Stat_RemoveAll in_cache_dirs_iff)
  next
    case False
    then have out: "Stat (snd (Clear config (ClearData config disk))) q = Stat b q"
      unfolding e by (auto simp: Stat_RemoveAll)
    show ?thesis
    proof (cases "q \<noteq> [] \<and> prefix (DataDir config) q")
      case True
      then have "Stat a q = None" by (simp add: sa)
      then have "Stat b q = None" unfolding b_def by (intro Stat_Remove_None)
      then show ?thesis using out True by (simp add: in_cache_dirs_iff)
    next
      case nd: False
      have nin: "q = [] \<or> \<not> in_cache_dirs config q"
        using False nd by (auto simp: in_cache_dirs_iff)
      have "q \<noteq> HistoryPath config \<and> q \<noteq> RoomListPath config \<or> q = []"
        using nin assms by auto
      then have "Stat b q = Stat a q"
        unfolding b_def by (auto simp: Stat_Remove_other)
      then show ?thesis using out nd nin by (auto simp: sa)
    qed
  qed
qed

lemma DeleteSession_disk_same:
  assumes wf: "wf_fs disk"
    and lay: "in_cache_dirs config (HistoryPath config)" "in_cache_dirs config (RoomListPath config)"
  shows "Stat (snd (DeleteSession L config (snd (DeleteSession L config disk)))) q
           = Stat (snd (DeleteSession L config disk)) q"
proof -
  define e where "e = snd (Clear config (ClearData config disk))"
  define d1 where "d1 = CreateCacheDirs config e"
  define e' where "e' = snd (Clear config (ClearData config d1))"
  define d2 where "d2 = CreateCacheDirs config e'"
  define made where "made \<longleftrightarrow>
     (creatable e (CacheDir config) \<and> prefix q (CacheDir config))
     \<or> (creatable e (DataDir config) \<and> prefix q (DataDir config))
     \<or> (creatable e (StateDir config) \<and> prefix q (StateDir config))
     \<or> (creatable e (MediaDir config) \<and> prefix q (MediaDir config))"
  have d1: "snd (DeleteSession L config disk) = d1"
    by (simp add: snd_DeleteSession d1_def e_def)
  have d2: "snd (DeleteSession L config d1) = d2"
    by (simp add: snd_DeleteSession d2_def e'_def)
  have wfe: "wf_fs e" unfolding e_def by (rule wf_fs_removal[OF wf])
  have wfd1: "wf_fs d1" unfolding d1_def by (rule wf_fs_CreateCacheDirs[OF wfe])
  have wfe': "wf_fs e'" unfolding e'_def by (rule wf_fs_removal[OF wfd1])
  have reg: "is_regular e' r = is_regular e r" for r
    unfolding e'_def e_def d1_def
    by (auto simp: is_regular_removal is_regular_CreateCacheDirs)
  have cr: "creatable e' r = creatable e r" for r
    by (simp add: creatable_iff reg)
  have s1: "Stat d1 q = (if Stat e q \<noteq> None then Stat e q else if made then Some Directory else None)"
    unfolding d1_def made_def by (rule Stat_CreateCacheDirs[OF wfe])
  have s2: "Stat d2 q = (if Stat e' q \<noteq> None then Stat e' q else if made then Some Directory else None)"
    unfolding d2_def made_def using Stat_CreateCacheDirs[OF wfe', of config q] by (simp add: cr)
  have se: "Stat e q = (if q \<noteq> [] \<and> in_cache_dirs config q then None else Stat disk q)"
    unfolding e_def by (rule Stat_removal[OF lay])
  have se': "Stat e' q = (if q \<noteq> [] \<and> in_cache_dirs config q then None else Stat d1 q)"
    unfolding e'_def by (rule Stat_removal[OF lay])
  have "Stat d2 q = Stat d1 q"
  proof (cases "q \<noteq> [] \<and> in_cache_dirs config q")
    case True
    then show ?thesis by (simp add: s1 s2 se se')
  next
    case False
    then have "Stat e' q = Stat d1 q" by (auto simp: se')
    then show ?thesis by (simp add: s2 s1)
  qed
  then show ?thesis by (simp add: d1 d2)
qed

text \<open>
  C5, as amended. On a well-formed disk, a second \<^verbatim>\<open>DeleteSession\<close> right after the
  first returns the same aggregate: sync token, initial-sync flag, access token and device
  id cleared, push ruleset nil, a room cache newly built from the same arguments,
  \<^verbatim>\<open>nosave\<close> off, and the filter id, the user id and the homeserver as they were before
  the first call. Each of the cache, data, state and media directories is on the disk
  after the second call exactly if it is after the first, and it is there after both
  where no regular file that \<^verbatim>\<open>DeleteSession\<close> leaves in place stands on its path. Where
  the history file and the room list lie in those directories, as \<^verbatim>\<open>NewConfig\<close> lays
  them out, the second call leaves every path of the disk as the first left it.
\<close>

theorem DeleteSession_twice:
  assumes "wf_fs disk"
  shows "case DeleteSession L config disk of (c1, d1) \<Rightarrow>
           case DeleteSession L c1 d1 of (c2, d2) \<Rightarrow>
             c2 = c1
           \<and> NextBatch (AuthCache c2) = [] \<and> InitialSyncDone (AuthCache c2) = False
           \<and> AccessToken c2 = [] \<and> DeviceID c2 = [] \<and> PushRules c2 = None
           \<and> Rooms c2 = Some (NewRoomCache L (RoomListPath c2) (StateDir c2)
                                (RoomCacheSize c2) (RoomCacheAge c2))
           \<and> nosave c2 = False
           \<and> FilterID (AuthCache c2) = FilterID (AuthCache config)
           \<and> UserID c2 = UserID config \<and> HS c2 = HS config
           \<and> (\<forall>X \<in> set [CacheDir c2, DataDir c2, StateDir c2, MediaDir c2].
                 Stat d2 X = Stat d1 X \<and> (creatable d1 X \<longrightarrow> Stat d1 X = Some Directory))
           \<and> (in_cache_dirs c2 (HistoryPath c2) \<and> in_cache_dirs c2 (RoomListPath c2) \<longrightarrow>
                 (\<forall>q. Stat d2 q = Stat d1 q))"
proof -
  obtain c1 d1 where s1: "DeleteSession L config disk = (c1, d1)" by fastforce
  obtain c2 d2 where s2: "DeleteSession L c1 d1 = (c2, d2)" by fastforce
  have c1: "c1 = fst (DeleteSession L config disk)" and d1: "d1 = snd (DeleteSession L config disk)"
    using s1 by simp_all
  have c2: "c2 = c1"
    using s2 fst_DeleteSession_again[of L config disk d1] c1 by simp
  have d2: "d2 = snd (DeleteSession L config d1)"
    using s2 snd_DeleteSession_again[of L config disk d1] c1 by simp
  have fields: "NextBatch (AuthCache c1) = []" "InitialSyncDone (AuthCache c1) = False"
    "AccessToken c1 = []" "DeviceID c1 = []" "PushRules c1 = None" "nosave c1 = False"
    "Rooms c1 = Some (NewRoomCache L (RoomListPath c1) (StateDir c1)
                        (RoomCacheSize c1) (RoomCacheAge c1))"
    "FilterID (AuthCache c1) = FilterID (AuthCache config)"
    "UserID c1 = UserID config" "HS c1 = HS config"
    unfolding c1 by (simp_all add: DeleteSession_config)
  have paths: "CacheDir c1 = CacheDir config" "DataDir c1 = DataDir config"
    "StateDir c1 = StateDir config" "MediaDir c1 = MediaDir config"
    unfolding c1 by (simp_all add: DeleteSession_config)
  have dirs: "Stat d2 X = Stat d1 X \<and> (creatable d1 X \<longrightarrow> Stat d1 X = Some Directory)"
    if "X \<in> {CacheDir config, DataDir config, StateDir config, MediaDir config}" for X
    unfolding d2 d1 using DeleteSession_dirs[OF assms that, of L] by blast
  have hp: "HistoryPath c1 = HistoryPath config" "RoomListPath c1 = RoomListPath config"
    unfolding c1 by (simp_all add: DeleteSession_config)
  have icd: "in_cache_dirs c1 r = in_cache_dirs config r" for r
    by (simp add: in_cache_dirs_iff paths)
  have whole: "Stat d2 q = Stat d1 q"
    if "in_cache_dirs config (HistoryPath config)" "in_cache_dirs config (RoomListPath config)" for q
    unfolding d2 d1 by (rule DeleteSession_disk_same[OF assms that])
  show ?thesis
    by (simp add: s1 s2 c2 fields paths dirs hp icd whole)
qed


lemma wf_fs_sample_disk: "wf_fs sample_disk"
  by (simp add: wf_fs_def sample_disk_def Stat_def)

lemma logged_in_after_DeleteSession:
  "snd (DeleteSession sample_deps logged_in_config sample_disk) =
     [([''etc''], Directory), ([''etc'', ''gomuks''], Directory),
      ([''etc'', ''gomuks'', ''config.yaml''], Regular [1]),
      ([''var''], Directory), ([''var'', ''cache''], Directory),
      ([''var'', ''data''], Directory),
      ([''var'', ''cache'', ''state''], Directory),
      ([''var'', ''cache'', ''media''], Directory)]"
  by (simp add: snd_DeleteSession snd_Clear ClearData_def CreateCacheDirs_def
        logged_in_config_def sample_config_def
        NewConfig_def sample_disk_def RemoveAll_def Remove_def has_children_def Join_single
        single_component_def
        ignoring_def MkdirAll.simps Mkdir_def Stat_def Let_def)

theorem DeleteSession_twice_witness:
  "wf_fs sample_disk
   \<and> fst (DeleteSession sample_deps (fst (DeleteSession sample_deps logged_in_config sample_disk))
            (snd (DeleteSession sample_deps logged_in_config sample_disk)))
       = fst (DeleteSession sample_deps logged_in_config sample_disk)
   \<and> FilterID (AuthCache (fst (DeleteSession sample_deps
            (fst (DeleteSession sample_deps logged_in_config sample_disk))
            (snd (DeleteSession sample_deps logged_in_config sample_disk))))) = ''abc123''
   \<and> NextBatch (AuthCache (fst (DeleteSession sample_deps
            (fst (DeleteSession sample_deps logged_in_config sample_disk))
            (snd (DeleteSession sample_deps logged_in_config sample_disk))))) = []
   \<and> AccessToken (fst (DeleteSession sample_deps
            (fst (DeleteSession sample_deps logged_in_config sample_disk))
            (snd (DeleteSession sample_deps logged_in_config sample_disk)))) = []
   \<and> Stat (snd (DeleteSession sample_deps (fst (DeleteSession sample_deps logged_in_config sample_disk))
            (snd (DeleteSession sample_deps logged_in_config sample_disk)))) [''var'', ''cache'']
       = Some Directory
   \<and> Stat (snd (DeleteSession sample_deps logged_in_config sample_disk)) [''var'', ''cache'']
       = Some Directory
   \<and> Stat (snd (DeleteSession sample_deps (fst (DeleteSession sample_deps logged_in_config sample_disk))
            (snd (DeleteSession sample_deps logged_in_config sample_disk))))
          [''etc'', ''gomuks'', ''config.yaml'']
       = Stat (snd (DeleteSession sample_deps logged_in_config sample_disk))
          [''etc'', ''gomuks'', ''config.yaml'']"
proof -
  obtain c1 d1 where s1: "DeleteSession sample_deps logged_in_config sample_disk = (c1, d1)"
    by fastforce
  obtain c2 d2 where s2: "DeleteSession sample_deps c1 d1 = (c2, d2)"
    by fastforce
  have d1: "d1 = snd (DeleteSession sample_deps logged_in_config sample_disk)"
    using s1 by simp
  have cd: "CacheDir c1 = [''var'', ''cache'']"
    using s1 DeleteSession_config[of sample_deps logged_in_config sample_disk]
    by (simp add: logged_in_config_def sample_config_def NewConfig_def)
  have fid: "FilterID (AuthCache logged_in_config) = ''abc123''"
    by (simp add: logged_in_config_def)
  have cr: "creatable d1 [''var'', ''cache'']"
    unfolding d1 logged_in_after_DeleteSession
    by (simp add: creatable_def is_regular_def Stat_def)
  have lay: "in_cache_dirs c1 (HistoryPath c1) \<and> in_cache_dirs c1 (RoomListPath c1)"
    using s1 DeleteSession_config[of sample_deps logged_in_config sample_disk]
    by (simp add: logged_in_config_def sample_config_def NewConfig_def in_cache_dirs_def
          Join_single single_component_def)
  have "c2 = c1 \<and> FilterID (AuthCache c2) = FilterID (AuthCache logged_in_config)
      \<and> NextBatch (AuthCache c2) = [] \<and> AccessToken c2 = []
      \<and> Stat d2 (CacheDir c2) = Stat d1 (CacheDir c2)
      \<and> (creatable d1 (CacheDir c2) \<longrightarrow> Stat d1 (CacheDir c2) = Some Directory)
      \<and> (in_cache_dirs c2 (HistoryPath c2) \<and> in_cache_dirs c2 (RoomListPath c2) \<longrightarrow>
            (\<forall>q. Stat d2 q = Stat d1 q))"
    using DeleteSession_twice[OF wf_fs_sample_disk, of sample_deps logged_in_config]
    by (auto simp: s1 s2)
  then have "c2 = c1 \<and> FilterID (AuthCache c2) = ''abc123''
      \<and> NextBatch (AuthCache c2) = [] \<and> AccessToken c2 = []
      \<and> Stat d2 [''var'', ''cache''] = Some Directory
      \<and> Stat d1 [''var'', ''cache''] = Some Directory
      \<and> Stat d2 [''etc'', ''gomuks'', ''config.yaml''] = Stat d1 [''etc'', ''gomuks'', ''config.yaml'']"
    using cd cr lay fid by auto
  then show ?thesis using wf_fs_sample_disk by (auto simp: s1 s2)
qed

text \<open>
  C5 as the specification states it fails, at the logged-in aggregate whose
  \<^verbatim>\<open>config.yaml\<close> relocated three paths. After the first call and after the second the
  auth cache still holds the filter id, so it is not empty; the data directory is on the
  disk after neither call, since \<^verbatim>\<open>blk\<close> is a regular file; and the second call does
  change the disk: \<^verbatim>\<open>os.Remove\<close> of the history path fails the first time on a directory
  that still holds the room list, and succeeds the second time on the directory the first
  call emptied.
\<close>

lemma relocated_after_first:
  "snd (DeleteSession sample_deps relocated_config relocated_disk) =
     [([''var''], Directory), ([''var'', ''h''], Directory),
      ([''blk''], Regular [5]), ([''var'', ''cache''], Directory),
      ([''var'', ''cache'', ''state''], Directory),
      ([''var'', ''cache'', ''media''], Directory)]"
  by (simp add: snd_DeleteSession snd_Clear ClearData_def CreateCacheDirs_def
        relocated_config_def relocated_disk_def logged_in_config_def sample_config_def
        NewConfig_def RemoveAll_def Remove_def has_children_def Join_single
        single_component_def
        ignoring_def MkdirAll.simps Mkdir_def Stat_def Let_def)

lemma relocated_after_second:
  "snd (DeleteSession sample_deps relocated_config
     [([''var''], Directory), ([''var'', ''h''], Directory),
      ([''blk''], Regular [5]), ([''var'', ''cache''], Directory),
      ([''var'', ''cache'', ''state''], Directory),
      ([''var'', ''cache'', ''media''], Directory)]) =
     [([''var''], Directory), ([''blk''], Regular [5]),
      ([''var'', ''cache''], Directory),
      ([''var'', ''cache'', ''state''], Directory),
      ([''var'', ''cache'', ''media''], Directory)]"
  by (simp add: snd_DeleteSession snd_Clear ClearData_def CreateCacheDirs_def
        relocated_config_def logged_in_config_def sample_config_def
        NewConfig_def RemoveAll_def Remove_def has_children_def Join_single
        single_component_def
        ignoring_def MkdirAll.simps Mkdir_def Stat_def Let_def)

theorem DeleteSession_twice_counterexample:
  "wf_fs relocated_disk
   \<and> AuthCache (fst (DeleteSession sample_deps relocated_config relocated_disk)) \<noteq> zero_AuthCache
   \<and> AuthCache (fst (DeleteSession sample_deps
         (fst (DeleteSession sample_deps relocated_config relocated_disk))
         (snd (DeleteSession sample_deps relocated_config relocated_disk)))) \<noteq> zero_AuthCache
   \<and> FilterID (AuthCache (fst (DeleteSession sample_deps
         (fst (DeleteSession sample_deps relocated_config relocated_disk))
         (snd (DeleteSession sample_deps relocated_config relocated_disk))))) = ''abc123''
   \<and> Stat (snd (DeleteSession sample_deps relocated_config relocated_disk)) [''blk'', ''data''] = None
   \<and> Stat (snd (DeleteSession sample_deps
         (fst (DeleteSession sample_deps relocated_config relocated_disk))
         (snd (DeleteSession sample_deps relocated_config relocated_disk)))) [''blk'', ''data''] = None
   \<and> DataDir (fst (DeleteSession sample_deps relocated_config relocated_disk)) = [''blk'', ''data'']
   \<and> Stat (snd (DeleteSession sample_deps relocated_config relocated_disk)) [''var'', ''h'']
       = Some Directory
   \<and> Stat (snd (DeleteSession sample_deps
         (fst (DeleteSession sample_deps relocated_config relocated_disk))
         (snd (DeleteSession sample_deps relocated_config relocated_disk)))) [''var'', ''h''] = None"
proof -
  define c1 where "c1 = fst (DeleteSession sample_deps relocated_config relocated_disk)"
  define d1 where "d1 = snd (DeleteSession sample_deps relocated_config relocated_disk)"
  define c2 where "c2 = fst (DeleteSession sample_deps c1 d1)"
  define d2 where "d2 = snd (DeleteSession sample_deps c1 d1)"
  have wf: "wf_fs relocated_disk"
    by (simp add: wf_fs_def relocated_disk_def Stat_def)
  have f1: "FilterID (AuthCache c1) = ''abc123''" and dd: "DataDir c1 = [''blk'', ''data'']"
    unfolding c1_def
    by (simp_all add: DeleteSession_config relocated_config_def logged_in_config_def)
  have c2: "c2 = c1"
    unfolding c2_def c1_def by (rule fst_DeleteSession_again)
  have z: "FilterID zero_AuthCache = []"
    by (simp add: zero_AuthCache_def)
  have ne: "AuthCache c1 \<noteq> zero_AuthCache"
    using f1 z by auto
  have e1: "d1 = [([''var''], Directory), ([''var'', ''h''], Directory),
      ([''blk''], Regular [5]), ([''var'', ''cache''], Directory),
      ([''var'', ''cache'', ''state''], Directory),
      ([''var'', ''cache'', ''media''], Directory)]"
    unfolding d1_def by (rule relocated_after_first)
  have "d2 = snd (DeleteSession sample_deps relocated_config d1)"
    unfolding d2_def c1_def by (rule snd_DeleteSession_again)
  then have e2: "d2 = [([''var''], Directory), ([''blk''], Regular [5]),
      ([''var'', ''cache''], Directory),
      ([''var'', ''cache'', ''state''], Directory),
      ([''var'', ''cache'', ''media''], Directory)]"
    unfolding e1 by (simp add: relocated_after_second)
  have s: "Stat d1 [''blk'', ''data''] = None" "Stat d2 [''blk'', ''data''] = None"
    "Stat d1 [''var'', ''h''] = Some Directory" "Stat d2 [''var'', ''h''] = None"
    unfolding e1 e2 by (simp_all add: Stat_def)
  have "wf_fs relocated_disk \<and> AuthCache c1 \<noteq> zero_AuthCache \<and> AuthCache c2 \<noteq> zero_AuthCache
      \<and> FilterID (AuthCache c2) = ''abc123''
      \<and> Stat d1 [''blk'', ''data''] = None \<and> Stat d2 [''blk'', ''data''] = None
      \<and> DataDir c1 = [''blk'', ''data'']
      \<and> Stat d1 [''var'', ''h''] = Some Directory \<and> Stat d2 [''var'', ''h''] = None"
    using wf ne f1 dd s unfolding c2 by simp
  then show ?thesis unfolding c2_def d2_def c1_def d1_def .
qed

section \<open>Saving, then loading\<close>

text \<open>
  What this file decides about a round trip through the disk: \<^verbatim>\<open>save\<close> and \<^verbatim>\<open>load\<close>
  choose between the two codecs by the same test on the file name and agree on the path,
  so a value that the chosen codec decodes from its own encoding comes back from
  \<^verbatim>\<open>load\<close> after \<^verbatim>\<open>save\<close>. Whether the codecs do decode their own encodings is a
  matter of the yaml and json packages and is not settled here.
\<close>

lemma Stat_update:
  "p \<noteq> [] \<Longrightarrow> Stat (AList.update p n disk) q = (if q = p then Some n else Stat disk q)"
  by (simp add: Stat_def update_conv')

lemma WriteFile_Inr:
  assumes "WriteFile disk p data = Inr disk'"
  shows "Stat disk' p = Some (Regular data) \<and> (\<forall>q. q \<noteq> p \<longrightarrow> Stat disk' q = Stat disk q)"
proof (cases "Stat disk p")
  case None
  then have pne: "p \<noteq> []" by (rule Stat_None_nonempty)
  have "disk' = disk @ [(p, Regular data)]"
    using assms None by (auto simp: WriteFile_def split: option.splits node.splits)
  then show ?thesis using None pne by (auto simp: Stat_snoc split: option.splits)
next
  case (Some n)
  then obtain d where n: "n = Regular d" and d': "disk' = AList.update p (Regular data) disk"
    using assms by (cases n) (auto simp: WriteFile_def)
  have "p \<noteq> []" using Some n by (auto simp: Stat_def split: if_splits)
  then show ?thesis using d' by (simp add: Stat_update)
qed

lemma MkdirAll_existing: "Stat disk p = Some Directory \<Longrightarrow> MkdirAll disk p = Inr disk"
  by (simp add: MkdirAll.simps[of disk p])

lemma load_after_save:
  assumes s: "save fmt False name dir file v disk = Inr disk'"
    and rt: "\<And>data.
      (if HasSuffix file ''.yaml'' then Marshal (yaml fmt) v else Marshal (json fmt) v) = Some data
      \<Longrightarrow> (if HasSuffix file ''.yaml'' then Unmarshal (yaml fmt) data t
           else Unmarshal (json fmt) data t) = Some v"
  shows "load fmt name dir file t disk' = Inr (v, disk')"
proof -
  obtain disk1 where m: "MkdirAll disk dir = Inr disk1"
    using s by (cases "MkdirAll disk dir") (simp_all add: save_def)
  obtain data where e:
    "(if HasSuffix file ''.yaml'' then Marshal (yaml fmt) v else Marshal (json fmt) v) = Some data"
    using s m
    by (cases "if HasSuffix file ''.yaml'' then Marshal (yaml fmt) v else Marshal (json fmt) v")
       (simp_all add: save_def)
  have w: "WriteFile disk1 (Join dir file) data = Inr disk'"
    using s m e by (cases "WriteFile disk1 (Join dir file) data") (simp_all add: save_def)
  have "Stat disk1 (Join dir file) \<noteq> Some Directory"
    using w by (auto simp: WriteFile_def)
  then have "Join dir file \<noteq> dir"
    using MkdirAll_Stat_self[OF m] by auto
  then have "Stat disk' dir = Some Directory"
    using WriteFile_Inr[OF w] MkdirAll_Stat_self[OF m] by simp
  then have m': "MkdirAll disk' dir = Inr disk'" by (rule MkdirAll_existing)
  have r: "ReadFile disk' (Join dir file) = Inr data"
    using WriteFile_Inr[OF w] by (simp add: ReadFile_def)
  show ?thesis using m' r rt[OF e] by (simp add: load_def)
qed

end
